theory Spec2Isabelle
  imports Main
begin

section \<open>Errors\<close>

text \<open>
  The Python code signals every failure by raising \<^verbatim>\<open>ValueError\<close> or by a failing
  \<^verbatim>\<open>assert\<close>. The specification names the failures by kind; each raise site of the
  source is modelled by the constructor of its kind:
  \<^item> \<open>TypeMismatch\<close>: the assertion \<^verbatim>\<open>f.target == g.source\<close> of \<^verbatim>\<open>compose\<close>, and a
    finite-function operation applied to operands whose domains or codomains do not fit;
  \<^item> \<open>DtypeMismatch\<close>: the \<^verbatim>\<open>ValueError\<close> of \<^verbatim>\<open>__post_init__\<close>, and a finite-function
    operation applied to operands of different dtype;
  \<^item> \<open>ArityMismatch\<close>: the two \<^verbatim>\<open>ValueError\<close>s of \<^verbatim>\<open>singleton\<close>;
  \<^item> \<open>LengthMismatch\<close>: the \<^verbatim>\<open>ValueError\<close> of \<^verbatim>\<open>interleave_blocks\<close>;
  \<^item> \<open>InvalidArgument\<close>: the \<^verbatim>\<open>ValueError\<close>s of \<^verbatim>\<open>identity\<close> and \<^verbatim>\<open>twist\<close>;
  \<^item> \<open>StructuralMismatch\<close>: the assertion \<^verbatim>\<open>len(FA) == len(RA)\<close> of \<^verbatim>\<open>Optic.map_objects\<close>.
\<close>

datatype error =
    TypeMismatch
  | DtypeMismatch
  | ArityMismatch
  | LengthMismatch
  | InvalidArgument
  | StructuralMismatch

text \<open>Sequencing of fallible steps: the first failure is the result.\<close>

definition bindE :: "error + 'a \<Rightarrow> ('a \<Rightarrow> error + 'b) \<Rightarrow> error + 'b" where
  "bindE m k = (case m of Inl e \<Rightarrow> Inl e | Inr v \<Rightarrow> k v)"

section \<open>Finite functions\<close>

text \<open>
  Modelled from the spec: the module \<^verbatim>\<open>open_hypergraphs.finite_function\<close> (classes
  \<^verbatim>\<open>FiniteFunction\<close> and \<^verbatim>\<open>IndexedCoproduct\<close>, constant \<^verbatim>\<open>DTYPE\<close>) is not among the
  source files. A finite function \<open>f : n \<rightarrow> m\<close> is an array of length \<open>n\<close> of indices in
  \<open>[0, m)\<close> together with the integer width (dtype) shared by all components of a
  computation. The target is optional because \<^verbatim>\<open>Optic.map_objects\<close> builds the array of
  block sizes as \<^verbatim>\<open>FiniteFunction(None, ...)\<close>.
\<close>

type_synonym dtype = nat

record FiniteFunction =
  ff_target :: "nat option"
  ff_table :: "nat list"
  ff_dtype :: dtype

text \<open>Modelled from the spec: the property \<^verbatim>\<open>source\<close>, also \<^verbatim>\<open>len(f)\<close>: the length of
  the array.\<close>

definition ff_source :: "FiniteFunction \<Rightarrow> nat" where
  "ff_source f = length (ff_table f)"

text \<open>Modelled from the spec: the invariant of the data model, every entry of the array is
  below the target.\<close>

definition wf_ff :: "FiniteFunction \<Rightarrow> bool" where
  "wf_ff f = (case ff_target f of None \<Rightarrow> True | Some m \<Rightarrow> list_all (\<lambda>i. i < m) (ff_table f))"

text \<open>Modelled from the spec: \<^verbatim>\<open>FiniteFunction.identity(n, dtype)\<close>.\<close>

definition ff_identity :: "nat \<Rightarrow> dtype \<Rightarrow> FiniteFunction" where
  "ff_identity n dtype = \<lparr>ff_target = Some n, ff_table = [0..<n], ff_dtype = dtype\<rparr>"

text \<open>Modelled from the spec: \<^verbatim>\<open>FiniteFunction.initial(n, dtype)\<close>, the function \<open>0 \<rightarrow> n\<close>.\<close>

definition ff_initial :: "nat \<Rightarrow> dtype \<Rightarrow> FiniteFunction" where
  "ff_initial n dtype = \<lparr>ff_target = Some n, ff_table = [], ff_dtype = dtype\<rparr>"

text \<open>Modelled from the spec: the injections \<^verbatim>\<open>inj0(a, b)\<close> \<open>: a \<rightarrow> a + b\<close> and
  \<^verbatim>\<open>inj1(a, b)\<close> \<open>: b \<rightarrow> a + b\<close>.\<close>

definition ff_inj0 :: "nat \<Rightarrow> nat \<Rightarrow> dtype \<Rightarrow> FiniteFunction" where
  "ff_inj0 a b dtype = \<lparr>ff_target = Some (a + b), ff_table = [0..<a], ff_dtype = dtype\<rparr>"

definition ff_inj1 :: "nat \<Rightarrow> nat \<Rightarrow> dtype \<Rightarrow> FiniteFunction" where
  "ff_inj1 a b dtype = \<lparr>ff_target = Some (a + b), ff_table = map (\<lambda>i. a + i) [0..<b], ff_dtype = dtype\<rparr>"

text \<open>
  Modelled from the spec: composition \<^verbatim>\<open>f >> g\<close>. Two finite functions that are combined
  must share their dtype, and the target of \<open>f\<close> must be the source of \<open>g\<close>; an index of
  \<open>f\<close> outside the array of \<open>g\<close> is an error as well (the array read would fail).
\<close>

definition ff_compose :: "FiniteFunction \<Rightarrow> FiniteFunction \<Rightarrow> error + FiniteFunction" where
  "ff_compose f g =
     (if ff_dtype f \<noteq> ff_dtype g then Inl DtypeMismatch
      else if ff_target f \<noteq> Some (ff_source g) then Inl TypeMismatch
      else if \<not> list_all (\<lambda>i. i < ff_source g) (ff_table f) then Inl TypeMismatch
      else Inr \<lparr>ff_target = ff_target g, ff_table = map (\<lambda>i. ff_table g ! i) (ff_table f),
                ff_dtype = ff_dtype f\<rparr>)"

text \<open>Modelled from the spec: the coproduct \<^verbatim>\<open>f + g\<close> of two functions into the same target
  (concatenation of the arrays).\<close>

definition ff_coproduct :: "FiniteFunction \<Rightarrow> FiniteFunction \<Rightarrow> error + FiniteFunction" where
  "ff_coproduct f g =
     (if ff_dtype f \<noteq> ff_dtype g then Inl DtypeMismatch
      else if ff_target f \<noteq> ff_target g then Inl TypeMismatch
      else Inr \<lparr>ff_target = ff_target f, ff_table = ff_table f @ ff_table g, ff_dtype = ff_dtype f\<rparr>)"

text \<open>Modelled from the spec: the tensor (disjoint sum) \<^verbatim>\<open>f @ g\<close>; the indices of \<open>g\<close> are
  shifted past the target of \<open>f\<close>.\<close>

definition ff_tensor :: "FiniteFunction \<Rightarrow> FiniteFunction \<Rightarrow> error + FiniteFunction" where
  "ff_tensor f g =
     (if ff_dtype f \<noteq> ff_dtype g then Inl DtypeMismatch
      else case (ff_target f, ff_target g) of
        (Some m, Some n) \<Rightarrow>
          Inr \<lparr>ff_target = Some (m + n), ff_table = ff_table f @ map (\<lambda>i. m + i) (ff_table g),
               ff_dtype = ff_dtype f\<rparr>
      | _ \<Rightarrow> Inl TypeMismatch)"

text \<open>Modelled from the spec: \<^verbatim>\<open>f.inject0(b)\<close> is \<open>f >> inj0(f.target, b)\<close> and
  \<^verbatim>\<open>f.inject1(a)\<close> is \<open>f >> inj1(a, f.target)\<close>.\<close>

definition ff_inject0 :: "FiniteFunction \<Rightarrow> nat \<Rightarrow> error + FiniteFunction" where
  "ff_inject0 f b =
     (case ff_target f of None \<Rightarrow> Inl TypeMismatch
      | Some m \<Rightarrow> ff_compose f (ff_inj0 m b (ff_dtype f)))"

definition ff_inject1 :: "FiniteFunction \<Rightarrow> nat \<Rightarrow> error + FiniteFunction" where
  "ff_inject1 f a =
     (case ff_target f of None \<Rightarrow> Inl TypeMismatch
      | Some m \<Rightarrow> ff_compose f (ff_inj1 a m (ff_dtype f)))"

text \<open>
  Modelled from the spec: the permutation \<^verbatim>\<open>twist(a, b)\<close> \<open>: a + b \<rightarrow> b + a\<close> that swaps a
  block of size \<open>a\<close> with a block of size \<open>b\<close>.
\<close>

definition ff_twist :: "nat \<Rightarrow> nat \<Rightarrow> dtype \<Rightarrow> FiniteFunction" where
  "ff_twist a b dtype =
     \<lparr>ff_target = Some (a + b), ff_table = map (\<lambda>i. b + i) [0..<a] @ [0..<b], ff_dtype = dtype\<rparr>"

text \<open>
  Modelled from the spec: the permutation \<^verbatim>\<open>transpose(a, b)\<close> on \<open>a * b\<close> elements. Position
  \<open>k\<close> of the interleaved order holds element \<open>(k mod a) * b + k div a\<close> of the blockwise
  order, so that \<^verbatim>\<open>transpose(2, n)\<close> lists \<open>0, n, 1, n + 1, ...\<close>.
\<close>

definition ff_transpose :: "nat \<Rightarrow> nat \<Rightarrow> dtype \<Rightarrow> FiniteFunction" where
  "ff_transpose a b dtype =
     \<lparr>ff_target = Some (a * b), ff_table = map (\<lambda>k. (k mod a) * b + k div a) [0..<a * b],
      ff_dtype = dtype\<rparr>"


text \<open>
  Modelled from the spec: \<^verbatim>\<open>s.injections(a)\<close>. For an array \<open>s\<close> of \<open>N\<close> block sizes and
  \<open>a : A \<rightarrow> N\<close>, the coproduct of the injections of the blocks \<open>a(0), a(1), ...\<close> into
  the concatenation of all blocks: the positions of block \<open>a(0)\<close>, then those of block
  \<open>a(1)\<close>, and so on.
\<close>

definition block_range :: "nat list \<Rightarrow> nat \<Rightarrow> nat list" where
  "block_range ns j = [sum_list (take j ns)..<sum_list (take j ns) + ns ! j]"

definition ff_injections :: "FiniteFunction \<Rightarrow> FiniteFunction \<Rightarrow> error + FiniteFunction" where
  "ff_injections s a =
     (if ff_dtype s \<noteq> ff_dtype a then Inl DtypeMismatch
      else if ff_target a \<noteq> Some (ff_source s) then Inl TypeMismatch
      else if \<not> list_all (\<lambda>j. j < ff_source s) (ff_table a) then Inl TypeMismatch
      else Inr \<lparr>ff_target = Some (sum_list (ff_table s)),
                ff_table = concat (map (block_range (ff_table s)) (ff_table a)),
                ff_dtype = ff_dtype s\<rparr>)"

subsection \<open>Coequalizers\<close>

text \<open>
  Modelled from the spec: \<^verbatim>\<open>f.coequalizer(g)\<close> for \<open>f, g : A \<rightarrow> B\<close> is the quotient map
  \<open>q : B \<rightarrow> Q\<close> that identifies \<open>f(i)\<close> with \<open>g(i)\<close> for every \<open>i\<close> and nothing more. It is
  computed by merging classes pair by pair (a union-find style merge); every class is
  represented by its least element, so the result does not depend on the order of the
  pairs, and the classes are numbered in the order of their representatives.
\<close>

definition merge_classes :: "nat list \<Rightarrow> nat \<times> nat \<Rightarrow> nat list" where
  "merge_classes rep p =
     (let a = min (rep ! fst p) (rep ! snd p); b = max (rep ! fst p) (rep ! snd p)
      in map (\<lambda>r. if r = b then a else r) rep)"

text \<open>Modelled from the spec: the representatives after merging all pairs, starting from
  every element representing itself.\<close>

definition class_reps :: "nat \<Rightarrow> (nat \<times> nat) list \<Rightarrow> nat list" where
  "class_reps n ps = foldl merge_classes [0..<n] ps"

text \<open>The invariant of the merge: the array of representatives has one entry per element,
  every entry is an element, and every representative represents itself.\<close>

definition valid_reps :: "nat \<Rightarrow> nat list \<Rightarrow> bool" where
  "valid_reps n rep \<longleftrightarrow>
     length rep = n \<and> (\<forall>i<n. rep ! i < n \<and> rep ! (rep ! i) = rep ! i)"

text \<open>Modelled from the spec: the number of a class, the count of representatives below
  its own.\<close>

definition rank_of :: "nat list \<Rightarrow> nat \<Rightarrow> nat" where
  "rank_of rep r = length (filter (\<lambda>j. rep ! j = j) [0..<r])"

text \<open>Modelled from the spec: \<^verbatim>\<open>f.coequalizer(g)\<close>; the two functions must be parallel
  and of one dtype.\<close>

definition ff_coequalizer :: "FiniteFunction \<Rightarrow> FiniteFunction \<Rightarrow> error + FiniteFunction" where
  "ff_coequalizer f g =
     (if ff_dtype f \<noteq> ff_dtype g then Inl DtypeMismatch
      else if ff_source f \<noteq> ff_source g \<or> ff_target f \<noteq> ff_target g then Inl TypeMismatch
      else case ff_target f of
        None \<Rightarrow> Inl TypeMismatch
      | Some n \<Rightarrow>
          if \<not> (list_all (\<lambda>i. i < n) (ff_table f) \<and> list_all (\<lambda>i. i < n) (ff_table g))
          then Inl TypeMismatch
          else
            (let rep = class_reps n (zip (ff_table f) (ff_table g))
             in Inr \<lparr>ff_target = Some (rank_of rep n), ff_table = map (rank_of rep) rep,
                     ff_dtype = ff_dtype f\<rparr>))"

text \<open>
  Modelled from the spec: the labelling induced on a quotient. For a quotient map
  \<open>q : B \<rightarrow> Q\<close> and a labelling \<open>w : B \<rightarrow> \<Sigma>\<close>, class \<open>k\<close> takes the label of its first
  member.
\<close>

definition quotient_labels :: "FiniteFunction \<Rightarrow> FiniteFunction \<Rightarrow> nat \<Rightarrow> FiniteFunction" where
  "quotient_labels q w Q =
     \<lparr>ff_target = ff_target w,
      ff_table = map (\<lambda>k. case find (\<lambda>i. ff_table q ! i = k) [0..<ff_source q] of
                             Some i \<Rightarrow> ff_table w ! i | None \<Rightarrow> 0) [0..<Q],
      ff_dtype = ff_dtype w\<rparr>"

section \<open>Indexed coproducts\<close>

text \<open>
  Modelled from the spec: an indexed coproduct packs \<open>N\<close> finite functions into the array
  \<open>sources\<close> of their \<open>N\<close> lengths and the concatenation \<open>values\<close> of their arrays.
\<close>

record IndexedCoproduct =
  ic_sources :: FiniteFunction
  ic_values :: FiniteFunction

text \<open>Modelled from the spec: \<^verbatim>\<open>len(c)\<close> is the number of blocks, and the dtype of an
  indexed coproduct is that of its values.\<close>

definition ic_len :: "IndexedCoproduct \<Rightarrow> nat" where
  "ic_len c = ff_source (ic_sources c)"

definition ic_dtype :: "IndexedCoproduct \<Rightarrow> dtype" where
  "ic_dtype c = ff_dtype (ic_values c)"

text \<open>The blocks of an indexed coproduct: the array of values cut at the block sizes.\<close>

fun split_blocks :: "nat list \<Rightarrow> 'a list \<Rightarrow> 'a list list" where
  "split_blocks [] vs = []"
| "split_blocks (n # ns) vs = take n vs # split_blocks ns (drop n vs)"

definition ic_blocks :: "IndexedCoproduct \<Rightarrow> nat list list" where
  "ic_blocks c = split_blocks (ff_table (ic_sources c)) (ff_table (ic_values c))"

text \<open>Modelled from the spec: the invariant of the data model, the block sizes (an array with
  no target) add up to
  the length of the values, and both components have one dtype.\<close>

definition wf_ic :: "IndexedCoproduct \<Rightarrow> bool" where
  "wf_ic c \<longleftrightarrow>
     wf_ff (ic_values c) \<and>
     ff_target (ic_sources c) = None \<and>
     sum_list (ff_table (ic_sources c)) = ff_source (ic_values c) \<and>
     ff_dtype (ic_sources c) = ff_dtype (ic_values c)"

text \<open>Modelled from the spec: \<^verbatim>\<open>IndexedCoproduct.initial(n, dtype)\<close>, no blocks, into \<open>n\<close>.\<close>

definition ic_initial :: "nat \<Rightarrow> dtype \<Rightarrow> IndexedCoproduct" where
  "ic_initial n dtype =
     \<lparr>ic_sources = \<lparr>ff_target = None, ff_table = [], ff_dtype = dtype\<rparr>,
      ic_values = ff_initial n dtype\<rparr>"

text \<open>Modelled from the spec: \<^verbatim>\<open>IndexedCoproduct.singleton(f, dtype)\<close>, the one block \<open>f\<close>.\<close>

definition ic_singleton :: "FiniteFunction \<Rightarrow> dtype \<Rightarrow> IndexedCoproduct" where
  "ic_singleton f dtype =
     \<lparr>ic_sources = \<lparr>ff_target = None, ff_table = [ff_source f], ff_dtype = dtype\<rparr>,
      ic_values = f\<rparr>"

text \<open>Modelled from the spec: block-wise \<^verbatim>\<open>+\<close>, the blocks of \<open>a\<close> followed by those of \<open>b\<close>.\<close>

definition ic_coproduct :: "IndexedCoproduct \<Rightarrow> IndexedCoproduct \<Rightarrow> error + IndexedCoproduct" where
  "ic_coproduct a b =
     bindE (ff_coproduct (ic_sources a) (ic_sources b)) (\<lambda>srcs.
     bindE (ff_coproduct (ic_values a) (ic_values b)) (\<lambda>vals.
     Inr \<lparr>ic_sources = srcs, ic_values = vals\<rparr>))"

text \<open>Modelled from the spec: the tensor of indexed coproducts, used by the disjoint union
  of hypergraphs: the blocks of \<open>a\<close> followed by the shifted blocks of \<open>b\<close>.\<close>

definition ic_tensor :: "IndexedCoproduct \<Rightarrow> IndexedCoproduct \<Rightarrow> error + IndexedCoproduct" where
  "ic_tensor a b =
     bindE (ff_coproduct (ic_sources a) (ic_sources b)) (\<lambda>srcs.
     bindE (ff_tensor (ic_values a) (ic_values b)) (\<lambda>vals.
     Inr \<lparr>ic_sources = srcs, ic_values = vals\<rparr>))"

text \<open>Modelled from the spec: \<^verbatim>\<open>c.map_indexes(p)\<close>, the blocks \<open>p(0), p(1), ...\<close> of \<open>c\<close>.\<close>

definition ic_map_indexes :: "IndexedCoproduct \<Rightarrow> FiniteFunction \<Rightarrow> error + IndexedCoproduct" where
  "ic_map_indexes c p =
     bindE (ff_compose p (ic_sources c)) (\<lambda>srcs.
     bindE (ff_injections (ic_sources c) p) (\<lambda>inj.
     bindE (ff_compose inj (ic_values c)) (\<lambda>vals.
     Inr \<lparr>ic_sources = srcs, ic_values = vals\<rparr>)))"

section \<open>Hypergraphs\<close>

text \<open>
  Modelled from the spec: the module \<^verbatim>\<open>open_hypergraphs.hypergraph\<close> is not among the
  source files. A hypergraph has wires labelled by \<open>w : W \<rightarrow> \<Sigma>\<^sub>0\<close>, hyperedges labelled by
  \<open>x : X \<rightarrow> \<Sigma>\<^sub>1\<close>, and indexed coproducts \<open>s\<close>, \<open>t\<close> of length \<open>X\<close> that give each
  hyperedge its ordered source and target wires.
\<close>

record Hypergraph =
  hg_s :: IndexedCoproduct
  hg_t :: IndexedCoproduct
  hg_w :: FiniteFunction
  hg_x :: FiniteFunction

text \<open>Modelled from the spec: the number \<^verbatim>\<open>W\<close> of wires, the number \<^verbatim>\<open>X\<close> of hyperedges,
  and the dtype of a hypergraph, which all its components share.\<close>

definition hg_W :: "Hypergraph \<Rightarrow> nat" where
  "hg_W H = ff_source (hg_w H)"

definition hg_X :: "Hypergraph \<Rightarrow> nat" where
  "hg_X H = ff_source (hg_x H)"

definition hg_dtype :: "Hypergraph \<Rightarrow> dtype" where
  "hg_dtype H = ff_dtype (hg_w H)"

text \<open>Modelled from the spec: the invariant of the data model, \<open>s\<close> and \<open>t\<close> have one block
  per hyperedge, every
  wire index in them is below \<open>W\<close>, the labels are below their alphabets, and all components
  share the dtype.\<close>

definition wf_hg :: "Hypergraph \<Rightarrow> bool" where
  "wf_hg H \<longleftrightarrow>
     wf_ic (hg_s H) \<and> wf_ic (hg_t H) \<and> wf_ff (hg_w H) \<and> wf_ff (hg_x H) \<and>
     ic_len (hg_s H) = hg_X H \<and> ic_len (hg_t H) = hg_X H \<and>
     ff_target (ic_values (hg_s H)) = Some (hg_W H) \<and>
     ff_target (ic_values (hg_t H)) = Some (hg_W H) \<and>
     ff_target (hg_w H) \<noteq> None \<and> ff_target (hg_x H) \<noteq> None \<and>
     ic_dtype (hg_s H) = hg_dtype H \<and> ic_dtype (hg_t H) = hg_dtype H \<and>
     ff_dtype (hg_x H) = hg_dtype H"

text \<open>Modelled from the spec: \<^verbatim>\<open>Hypergraph.discrete(w, x, dtype)\<close>, the edge-free hypergraph
  on the wires \<open>w\<close>.\<close>

definition hg_discrete :: "FiniteFunction \<Rightarrow> FiniteFunction \<Rightarrow> dtype \<Rightarrow> Hypergraph" where
  "hg_discrete w x dtype =
     \<lparr>hg_s = ic_initial (ff_source w) dtype, hg_t = ic_initial (ff_source w) dtype,
      hg_w = w, hg_x = x\<rparr>"

text \<open>Modelled from the spec: \<^verbatim>\<open>H1 + H2\<close>, the disjoint union of hypergraphs.\<close>

definition hg_coproduct :: "Hypergraph \<Rightarrow> Hypergraph \<Rightarrow> error + Hypergraph" where
  "hg_coproduct G K =
     bindE (ic_tensor (hg_s G) (hg_s K)) (\<lambda>s.
     bindE (ic_tensor (hg_t G) (hg_t K)) (\<lambda>t.
     bindE (ff_coproduct (hg_w G) (hg_w K)) (\<lambda>w.
     bindE (ff_coproduct (hg_x G) (hg_x K)) (\<lambda>x.
     Inr \<lparr>hg_s = s, hg_t = t, hg_w = w, hg_x = x\<rparr>))))"

text \<open>
  Modelled from the spec: \<^verbatim>\<open>H.coequalize_vertices(q)\<close> applies the quotient map
  \<open>q : W \<rightarrow> Q\<close> to the endpoints of the hyperedges and labels the wires of the quotient.
\<close>

definition hg_coequalize_vertices :: "Hypergraph \<Rightarrow> FiniteFunction \<Rightarrow> error + Hypergraph" where
  "hg_coequalize_vertices G q =
     (if ff_source q \<noteq> hg_W G then Inl TypeMismatch
      else case ff_target q of
        None \<Rightarrow> Inl TypeMismatch
      | Some Q \<Rightarrow>
          bindE (ff_compose (ic_values (hg_s G)) q) (\<lambda>sv.
          bindE (ff_compose (ic_values (hg_t G)) q) (\<lambda>tv.
          Inr \<lparr>hg_s = \<lparr>ic_sources = ic_sources (hg_s G), ic_values = sv\<rparr>,
               hg_t = \<lparr>ic_sources = ic_sources (hg_t G), ic_values = tv\<rparr>,
               hg_w = quotient_labels q (hg_w G) Q, hg_x = hg_x G\<rparr>)))"

section \<open>Open hypergraphs\<close>

text \<open>
  The dataclass \<^verbatim>\<open>OpenHypergraph\<close> of \<^verbatim>\<open>open_hypergraph.py\<close>: a hypergraph \<open>H\<close> with the
  interface maps \<open>s\<close> and \<open>t\<close> into its wires.
\<close>

record OpenHypergraph =
  oh_s :: FiniteFunction
  oh_t :: FiniteFunction
  oh_H :: Hypergraph

text \<open>The check of \<^verbatim>\<open>__post_init__\<close>.\<close>

definition post_init_ok :: "OpenHypergraph \<Rightarrow> bool" where
  "post_init_ok f \<longleftrightarrow>
     \<not> (ff_dtype (oh_s f) \<noteq> ff_dtype (oh_t f) \<or> ff_dtype (oh_t f) \<noteq> hg_dtype (oh_H f))"

text \<open>The constructor \<^verbatim>\<open>cls(s, t, H)\<close>: the dataclass is built and \<^verbatim>\<open>__post_init__\<close> raises
  \<^verbatim>\<open>ValueError\<close> when the dtypes of the components differ.\<close>

definition new_OpenHypergraph ::
  "FiniteFunction \<Rightarrow> FiniteFunction \<Rightarrow> Hypergraph \<Rightarrow> error + OpenHypergraph" where
  "new_OpenHypergraph s t H =
     (if ff_dtype s \<noteq> ff_dtype t \<or> ff_dtype t \<noteq> hg_dtype H then Inl DtypeMismatch
      else Inr \<lparr>oh_s = s, oh_t = t, oh_H = H\<rparr>)"

text \<open>The properties \<^verbatim>\<open>source\<close> and \<^verbatim>\<open>target\<close>: the type sequences
  \<^verbatim>\<open>self.s >> self.H.w\<close> and \<^verbatim>\<open>self.t >> self.H.w\<close>.\<close>

definition source :: "OpenHypergraph \<Rightarrow> error + FiniteFunction" where
  "source f = ff_compose (oh_s f) (hg_w (oh_H f))"

definition target :: "OpenHypergraph \<Rightarrow> error + FiniteFunction" where
  "target f = ff_compose (oh_t f) (hg_w (oh_H f))"

text \<open>The invariant of the data model: \<open>s\<close> and \<open>t\<close> are finite functions into the wires
  of a well-formed \<open>H\<close>, and the check of \<^verbatim>\<open>__post_init__\<close> holds.\<close>

definition wf_oh :: "OpenHypergraph \<Rightarrow> bool" where
  "wf_oh f \<longleftrightarrow>
     wf_hg (oh_H f) \<and> wf_ff (oh_s f) \<and> wf_ff (oh_t f) \<and>
     ff_target (oh_s f) = Some (hg_W (oh_H f)) \<and>
     ff_target (oh_t f) = Some (hg_W (oh_H f)) \<and>
     post_init_ok f"

text \<open>Two open hypergraphs of one computation: the same dtype and the same alphabets of
  wire types and of operations.\<close>

definition same_signature :: "OpenHypergraph \<Rightarrow> OpenHypergraph \<Rightarrow> bool" where
  "same_signature f g \<longleftrightarrow>
     ff_dtype (oh_s f) = ff_dtype (oh_s g) \<and>
     ff_target (hg_w (oh_H f)) = ff_target (hg_w (oh_H g)) \<and>
     ff_target (hg_x (oh_H f)) = ff_target (hg_x (oh_H g))"

text \<open>\<^verbatim>\<open>OpenHypergraph.identity(w, x, dtype)\<close>.\<close>

definition identity :: "FiniteFunction \<Rightarrow> FiniteFunction \<Rightarrow> dtype \<Rightarrow> error + OpenHypergraph" where
  "identity w x dtype =
     (if ff_source x \<noteq> 0 then Inl InvalidArgument
      else
        (let s = ff_identity (ff_source w) dtype;
             t = s;
             H = hg_discrete w x dtype
         in new_OpenHypergraph s t H))"

text \<open>\<^verbatim>\<open>f.tensor(g)\<close>, also written \<^verbatim>\<open>f @ g\<close>. The keyword arguments are evaluated in the
  order \<open>s\<close>, \<open>t\<close>, \<open>H\<close>.\<close>

definition tensor :: "OpenHypergraph \<Rightarrow> OpenHypergraph \<Rightarrow> error + OpenHypergraph" where
  "tensor f g =
     bindE (ff_tensor (oh_s f) (oh_s g)) (\<lambda>s.
     bindE (ff_tensor (oh_t f) (oh_t g)) (\<lambda>t.
     bindE (hg_coproduct (oh_H f) (oh_H g)) (\<lambda>H.
     new_OpenHypergraph s t H)))"

text \<open>\<^verbatim>\<open>f.compose(g)\<close>, also written \<^verbatim>\<open>f >> g\<close>. The failing assertion
  \<^verbatim>\<open>f.target == g.source\<close> is the error \<open>TypeMismatch\<close>.\<close>

definition compose :: "OpenHypergraph \<Rightarrow> OpenHypergraph \<Rightarrow> error + OpenHypergraph" where
  "compose f g =
     bindE (target f) (\<lambda>ft.
     bindE (source g) (\<lambda>gs.
     if ft \<noteq> gs then Inl TypeMismatch
     else
       bindE (tensor f g) (\<lambda>h.
       bindE (ff_inject0 (oh_t f) (hg_W (oh_H g))) (\<lambda>ft0.
       bindE (ff_inject1 (oh_s g) (hg_W (oh_H f))) (\<lambda>gs1.
       bindE (ff_coequalizer ft0 gs1) (\<lambda>q.
       bindE (bindE (ff_inject0 (oh_s f) (hg_W (oh_H g))) (\<lambda>i. ff_compose i q)) (\<lambda>s.
       bindE (bindE (ff_inject1 (oh_t g) (hg_W (oh_H f))) (\<lambda>i. ff_compose i q)) (\<lambda>t.
       bindE (hg_coequalize_vertices (oh_H h) q) (\<lambda>H.
       new_OpenHypergraph s t H)))))))))"

text \<open>\<^verbatim>\<open>OpenHypergraph.twist(a, b, x, dtype)\<close>. The wires of the hypergraph are typed
  \<open>b + a\<close> because the twist is in the source map.\<close>

definition twist ::
  "FiniteFunction \<Rightarrow> FiniteFunction \<Rightarrow> FiniteFunction \<Rightarrow> dtype \<Rightarrow> error + OpenHypergraph" where
  "twist a b x dtype =
     (if ff_source x \<noteq> 0 then Inl InvalidArgument
      else
        (let s = ff_twist (ff_source a) (ff_source b) dtype;
             t = ff_identity (ff_source a + ff_source b) dtype
         in bindE (ff_coproduct b a) (\<lambda>ba.
            new_OpenHypergraph s t (hg_discrete ba x dtype))))"

text \<open>\<^verbatim>\<open>f.dagger()\<close>; the constructor runs \<^verbatim>\<open>__post_init__\<close> again.\<close>

definition dagger :: "OpenHypergraph \<Rightarrow> error + OpenHypergraph" where
  "dagger f = new_OpenHypergraph (oh_t f) (oh_s f) (oh_H f)"

text \<open>\<^verbatim>\<open>OpenHypergraph.spider(s, t, w, x, dtype)\<close>; \<^verbatim>\<open>dtype or s.table.dtype\<close> takes the
  dtype of \<open>s\<close> when none is given.\<close>

definition spider ::
  "FiniteFunction \<Rightarrow> FiniteFunction \<Rightarrow> FiniteFunction \<Rightarrow> FiniteFunction \<Rightarrow> dtype option
     \<Rightarrow> error + OpenHypergraph" where
  "spider s t w x dtype =
     (let dtype' = (case dtype of Some d \<Rightarrow> d | None \<Rightarrow> ff_dtype s);
          H = hg_discrete w x dtype'
      in new_OpenHypergraph s t H)"

text \<open>
  \<^verbatim>\<open>OpenHypergraph.half_spider(s, w, x, dtype)\<close>. The identity is built by
  \<^verbatim>\<open>identity(len(w))\<close> with no dtype argument, hence with the default \<^verbatim>\<open>DTYPE\<close> of the
  finite-function module; that constant is not among the source files and is the
  parameter \<open>DTYPE\<close> here.
\<close>

definition half_spider ::
  "dtype \<Rightarrow> FiniteFunction \<Rightarrow> FiniteFunction \<Rightarrow> FiniteFunction \<Rightarrow> dtype option
     \<Rightarrow> error + OpenHypergraph" where
  "half_spider DTYPE s w x dtype =
     (let dtype' = (case dtype of Some d \<Rightarrow> d | None \<Rightarrow> ff_dtype s);
          t = ff_identity (ff_source w) DTYPE
      in spider s t w x (Some dtype'))"



section \<open>The optic functor\<close>

text \<open>
  \<^verbatim>\<open>Optic.map_objects(A, dtype)\<close> of \<^verbatim>\<open>functor/optic.py\<close>. The object maps of the forward
  functor \<open>F\<close> and of the reverse functor \<open>R\<close> are abstract methods and are parameters
  here. \<^verbatim>\<open>FA.sources.table + RA.sources.table\<close> adds the two arrays of block sizes
  entry by entry.
\<close>

definition map_objects ::
  "(FiniteFunction \<Rightarrow> dtype \<Rightarrow> IndexedCoproduct) \<Rightarrow> (FiniteFunction \<Rightarrow> dtype \<Rightarrow> IndexedCoproduct)
     \<Rightarrow> FiniteFunction \<Rightarrow> dtype \<Rightarrow> error + IndexedCoproduct" where
  "map_objects F R A dtype =
     (let FA = F A dtype; RA = R A dtype
      in if ic_len FA \<noteq> ic_len RA then Inl StructuralMismatch
         else
           (let n = ic_len FA
            in bindE (ic_coproduct FA RA) (\<lambda>paired.
               let p = ff_transpose 2 n dtype;
                   sources = \<lparr>ff_target = None,
                              ff_table = map (\<lambda>(a, b). a + b)
                                (zip (ff_table (ic_sources FA)) (ff_table (ic_sources RA))),
                              ff_dtype = dtype\<rparr>
               in bindE (ic_map_indexes paired p) (\<lambda>m.
                  Inr \<lparr>ic_sources = sources, ic_values = ic_values m\<rparr>))))"

text \<open>\<^verbatim>\<open>Optic.interleave_blocks(A, B, x)\<close>.\<close>

definition interleave_blocks ::
  "IndexedCoproduct \<Rightarrow> IndexedCoproduct \<Rightarrow> FiniteFunction \<Rightarrow> error + OpenHypergraph" where
  "interleave_blocks A B x =
     (if ic_len A \<noteq> ic_len B then Inl LengthMismatch
      else
        bindE (ic_coproduct A B) (\<lambda>AB.
        let dtype = ic_dtype AB;
            s = ff_identity (ff_source (ic_values AB)) dtype
        in bindE (ff_injections (ic_sources AB) (ff_transpose 2 (ic_len A) dtype)) (\<lambda>t.
           spider s t (ic_values AB) x None)))"

section \<open>Example values\<close>

text \<open>Concrete inputs at which the theorems below are exercised: two wires of types \<open>2\<close>
  and \<open>0\<close> over an alphabet of three wire types, and operation labellings over an alphabet
  of one operation, without and with one operation.\<close>

definition ex_w :: FiniteFunction where
  "ex_w = \<lparr>ff_target = Some 3, ff_table = [2, 0], ff_dtype = 32\<rparr>"

definition ex_x0 :: FiniteFunction where
  "ex_x0 = \<lparr>ff_target = Some 1, ff_table = [], ff_dtype = 32\<rparr>"

definition ex_x1 :: FiniteFunction where
  "ex_x1 = \<lparr>ff_target = Some 1, ff_table = [0], ff_dtype = 32\<rparr>"

text \<open>The spider on the wires \<open>ex_w\<close> with source interface \<open>[0, 1]\<close> and target interface
  \<open>[1, 0]\<close>.\<close>

definition ex_f :: OpenHypergraph where
  "ex_f = \<lparr>oh_s = ff_identity 2 32, oh_t = ff_twist 1 1 32, oh_H = hg_discrete ex_w ex_x0 32\<rparr>"

text \<open>Type sequences over the same alphabet: one wire of type \<open>2\<close>, and two wires of
  types \<open>0\<close> and \<open>1\<close>.\<close>

definition ex_a :: FiniteFunction where
  "ex_a = \<lparr>ff_target = Some 3, ff_table = [2], ff_dtype = 32\<rparr>"

definition ex_b :: FiniteFunction where
  "ex_b = \<lparr>ff_target = Some 3, ff_table = [0, 1], ff_dtype = 32\<rparr>"

text \<open>The open hypergraph of one operation with inputs \<open>ex_b\<close> and outputs \<open>ex_a\<close>, written
  out: wires \<open>0, 1\<close> are the inputs and wire \<open>2\<close> is the output of the hyperedge.\<close>

definition ex_g :: OpenHypergraph where
  "ex_g = \<lparr>oh_s = ff_inj0 2 1 32, oh_t = ff_inj1 2 1 32,
           oh_H = \<lparr>hg_s = ic_singleton (ff_inj0 2 1 32) 32, hg_t = ic_singleton (ff_inj1 2 1 32) 32,
                   hg_w = \<lparr>ff_target = Some 3, ff_table = [0, 1, 2], ff_dtype = 32\<rparr>,
                   hg_x = ex_x1\<rparr>\<rparr>"

text \<open>Indexed coproducts over the same alphabet: \<open>ex_A\<close> has the blocks \<open>[0]\<close> and
  \<open>[1, 2]\<close>, \<open>ex_B\<close> the blocks \<open>[2, 2]\<close> and \<open>[]\<close>, \<open>ex_C\<close> the one block \<open>[0]\<close>.\<close>

definition ex_A :: IndexedCoproduct where
  "ex_A = \<lparr>ic_sources = \<lparr>ff_target = None, ff_table = [1, 2], ff_dtype = 32\<rparr>,
           ic_values = \<lparr>ff_target = Some 3, ff_table = [0, 1, 2], ff_dtype = 32\<rparr>\<rparr>"

definition ex_B :: IndexedCoproduct where
  "ex_B = \<lparr>ic_sources = \<lparr>ff_target = None, ff_table = [2, 0], ff_dtype = 32\<rparr>,
           ic_values = \<lparr>ff_target = Some 3, ff_table = [2, 2], ff_dtype = 32\<rparr>\<rparr>"

definition ex_C :: IndexedCoproduct where
  "ex_C = \<lparr>ic_sources = \<lparr>ff_target = None, ff_table = [1], ff_dtype = 32\<rparr>,
           ic_values = \<lparr>ff_target = Some 3, ff_table = [0], ff_dtype = 32\<rparr>\<rparr>"

text \<open>Object maps of functors: \<open>ex_F\<close> maps every object to itself (one block of one
  wire), \<open>ex_R\<close> maps every object to two copies of itself (one block of two wires), and
  \<open>ex_R0\<close> maps every list of objects to no block at all.\<close>

definition ex_F :: "FiniteFunction \<Rightarrow> dtype \<Rightarrow> IndexedCoproduct" where
  "ex_F A dtype =
     \<lparr>ic_sources = \<lparr>ff_target = None, ff_table = map (\<lambda>a. 1) (ff_table A), ff_dtype = dtype\<rparr>,
      ic_values = \<lparr>ff_target = ff_target A, ff_table = ff_table A, ff_dtype = dtype\<rparr>\<rparr>"

definition ex_R :: "FiniteFunction \<Rightarrow> dtype \<Rightarrow> IndexedCoproduct" where
  "ex_R A dtype =
     \<lparr>ic_sources = \<lparr>ff_target = None, ff_table = map (\<lambda>a. 2) (ff_table A), ff_dtype = dtype\<rparr>,
      ic_values = \<lparr>ff_target = ff_target A, ff_table = concat (map (\<lambda>a. [a, a]) (ff_table A)),
                    ff_dtype = dtype\<rparr>\<rparr>"

definition ex_R0 :: "FiniteFunction \<Rightarrow> dtype \<Rightarrow> IndexedCoproduct" where
  "ex_R0 A dtype = ic_initial 3 dtype"

text \<open>The spider that copies one wire of type \<open>2\<close>: source interface \<open>[0]\<close>, target
  interface \<open>[0, 0]\<close>.\<close>

definition ex_e :: OpenHypergraph where
  "ex_e = \<lparr>oh_s = \<lparr>ff_target = Some 1, ff_table = [0], ff_dtype = 32\<rparr>,
           oh_t = \<lparr>ff_target = Some 1, ff_table = [0, 0], ff_dtype = 32\<rparr>,
           oh_H = hg_discrete ex_a ex_x0 32\<rparr>"

text \<open>Values of dtype \<open>64\<close>: an interface map into two wires, two wires of types \<open>2\<close> and
  \<open>0\<close>, and no operations.\<close>

definition ex_s64 :: FiniteFunction where
  "ex_s64 = \<lparr>ff_target = Some 2, ff_table = [0, 1], ff_dtype = 64\<rparr>"

definition ex_w64 :: FiniteFunction where
  "ex_w64 = \<lparr>ff_target = Some 3, ff_table = [2, 0], ff_dtype = 64\<rparr>"

definition ex_x64 :: FiniteFunction where
  "ex_x64 = \<lparr>ff_target = Some 1, ff_table = [], ff_dtype = 64\<rparr>"

section \<open>Lists and the finite-function operations\<close>

lemma map_nth_append_left: "map ((!) (xs @ ys)) [0..<length xs] = xs"
  by (rule nth_equalityI) (simp_all add: nth_append)

lemma map_nth_append_right: "map ((!) (xs @ ys)) (map (\<lambda>i. length xs + i) [0..<length ys]) = ys"
  by (rule nth_equalityI) (simp_all add: nth_append)

lemma ff_tensor_ok:
  "ff_dtype f = ff_dtype g \<Longrightarrow> ff_target f = Some m \<Longrightarrow> ff_target g = Some n \<Longrightarrow>
   ff_tensor f g = Inr \<lparr>ff_target = Some (m + n),
                        ff_table = ff_table f @ map (\<lambda>i. m + i) (ff_table g),
                        ff_dtype = ff_dtype f\<rparr>"
  by (simp add: ff_tensor_def)

lemma ff_coproduct_ok:
  "ff_dtype f = ff_dtype g \<Longrightarrow> ff_target f = ff_target g \<Longrightarrow>
   ff_coproduct f g = Inr \<lparr>ff_target = ff_target f, ff_table = ff_table f @ ff_table g,
                           ff_dtype = ff_dtype f\<rparr>"
  by (simp add: ff_coproduct_def)

lemma ic_tensor_ok:
  assumes "wf_ic a" "wf_ic b" "ic_dtype a = ic_dtype b"
    "ff_target (ic_values a) = Some m" "ff_target (ic_values b) = Some n"
  shows "ic_tensor a b =
     Inr \<lparr>ic_sources = \<lparr>ff_target = None,
                         ff_table = ff_table (ic_sources a) @ ff_table (ic_sources b),
                         ff_dtype = ic_dtype a\<rparr>,
          ic_values = \<lparr>ff_target = Some (m + n),
                        ff_table = ff_table (ic_values a) @ map (\<lambda>i. m + i) (ff_table (ic_values b)),
                        ff_dtype = ic_dtype a\<rparr>\<rparr>"
  using assms
  by (simp add: ic_tensor_def wf_ic_def ic_dtype_def ff_coproduct_ok ff_tensor_ok bindE_def)

lemma hg_coproduct_ok:
  assumes "wf_hg G" "wf_hg K" "hg_dtype G = hg_dtype K"
    "ff_target (hg_w G) = ff_target (hg_w K)" "ff_target (hg_x G) = ff_target (hg_x K)"
  shows "hg_coproduct G K =
     Inr \<lparr>hg_s = \<lparr>ic_sources = \<lparr>ff_target = None,
                         ff_table = ff_table (ic_sources (hg_s G)) @ ff_table (ic_sources (hg_s K)),
                         ff_dtype = hg_dtype G\<rparr>,
                   ic_values = \<lparr>ff_target = Some (hg_W G + hg_W K),
                        ff_table = ff_table (ic_values (hg_s G)) @
                                   map (\<lambda>i. hg_W G + i) (ff_table (ic_values (hg_s K))),
                        ff_dtype = hg_dtype G\<rparr>\<rparr>,
          hg_t = \<lparr>ic_sources = \<lparr>ff_target = None,
                         ff_table = ff_table (ic_sources (hg_t G)) @ ff_table (ic_sources (hg_t K)),
                         ff_dtype = hg_dtype G\<rparr>,
                   ic_values = \<lparr>ff_target = Some (hg_W G + hg_W K),
                        ff_table = ff_table (ic_values (hg_t G)) @
                                   map (\<lambda>i. hg_W G + i) (ff_table (ic_values (hg_t K))),
                        ff_dtype = hg_dtype G\<rparr>\<rparr>,
          hg_w = \<lparr>ff_target = ff_target (hg_w G), ff_table = ff_table (hg_w G) @ ff_table (hg_w K),
                  ff_dtype = hg_dtype G\<rparr>,
          hg_x = \<lparr>ff_target = ff_target (hg_x G), ff_table = ff_table (hg_x G) @ ff_table (hg_x K),
                  ff_dtype = hg_dtype G\<rparr>\<rparr>"
proof -
  have s: "ic_tensor (hg_s G) (hg_s K) = Inr \<lparr>ic_sources = \<lparr>ff_target = None,
                         ff_table = ff_table (ic_sources (hg_s G)) @ ff_table (ic_sources (hg_s K)),
                         ff_dtype = hg_dtype G\<rparr>,
                   ic_values = \<lparr>ff_target = Some (hg_W G + hg_W K),
                        ff_table = ff_table (ic_values (hg_s G)) @
                                   map (\<lambda>i. hg_W G + i) (ff_table (ic_values (hg_s K))),
                        ff_dtype = hg_dtype G\<rparr>\<rparr>"
    using assms ic_tensor_ok [of "hg_s G" "hg_s K" "hg_W G" "hg_W K"]
    by (simp add: wf_hg_def)
  have t: "ic_tensor (hg_t G) (hg_t K) = Inr \<lparr>ic_sources = \<lparr>ff_target = None,
                         ff_table = ff_table (ic_sources (hg_t G)) @ ff_table (ic_sources (hg_t K)),
                         ff_dtype = hg_dtype G\<rparr>,
                   ic_values = \<lparr>ff_target = Some (hg_W G + hg_W K),
                        ff_table = ff_table (ic_values (hg_t G)) @
                                   map (\<lambda>i. hg_W G + i) (ff_table (ic_values (hg_t K))),
                        ff_dtype = hg_dtype G\<rparr>\<rparr>"
    using assms ic_tensor_ok [of "hg_t G" "hg_t K" "hg_W G" "hg_W K"]
    by (simp add: wf_hg_def)
  have w: "ff_coproduct (hg_w G) (hg_w K) =
      Inr \<lparr>ff_target = ff_target (hg_w G), ff_table = ff_table (hg_w G) @ ff_table (hg_w K),
           ff_dtype = hg_dtype G\<rparr>"
    using assms by (simp add: ff_coproduct_ok hg_dtype_def)
  have x: "ff_coproduct (hg_x G) (hg_x K) =
      Inr \<lparr>ff_target = ff_target (hg_x G), ff_table = ff_table (hg_x G) @ ff_table (hg_x K),
           ff_dtype = hg_dtype G\<rparr>"
    using assms by (simp add: ff_coproduct_ok wf_hg_def)
  show ?thesis
    by (simp add: hg_coproduct_def s t w x bindE_def)
qed


lemma same_signature_dtype:
  "wf_oh f \<Longrightarrow> wf_oh g \<Longrightarrow> same_signature f g \<Longrightarrow>
   ff_dtype (oh_t f) = ff_dtype (oh_t g) \<and> hg_dtype (oh_H f) = hg_dtype (oh_H g) \<and>
   ff_dtype (oh_s f) = hg_dtype (oh_H f) \<and> ff_dtype (oh_t f) = hg_dtype (oh_H f)"
  by (auto simp: wf_oh_def same_signature_def post_init_ok_def)

section \<open>Blocks, injections and the transposition\<close>

lemma length_split_blocks: "length (split_blocks ns vs) = length ns"
  by (induction ns arbitrary: vs) auto

lemma split_blocks_append:
  "sum_list ns = length vs \<Longrightarrow>
   split_blocks (ns @ ms) (vs @ ws) = split_blocks ns vs @ split_blocks ms ws"
  by (induction ns arbitrary: vs) auto

lemma map_nth_upt_drop_take:
  "a + m \<le> length vs \<Longrightarrow> map ((!) vs) [a..<a + m] = take m (drop a vs)"
  by (rule nth_equalityI) (auto simp: nth_append)

lemma split_blocks_nth:
  "j < length ns \<Longrightarrow> split_blocks ns vs ! j = take (ns ! j) (drop (sum_list (take j ns)) vs)"
proof (induction ns arbitrary: vs j)
  case Nil
  then show ?case by simp
next
  case (Cons n ns)
  then show ?case
    by (cases j) (auto simp: add.commute)
qed

lemma sum_list_take_le:
  "j < length ns \<Longrightarrow> sum_list (take j ns) + ns ! j \<le> sum_list (ns :: nat list)"
proof (induction ns arbitrary: j)
  case Nil
  then show ?case by simp
next
  case (Cons n ns)
  then show ?case by (cases j) auto
qed

lemma map_nth_block_range:
  assumes "j < length ns" "sum_list ns \<le> length vs"
  shows "map ((!) vs) (block_range ns j) = split_blocks ns vs ! j"
proof -
  have "sum_list (take j ns) + ns ! j \<le> length vs"
    using sum_list_take_le [OF assms(1)] assms(2) by simp
  then show ?thesis
    using assms(1) by (simp add: block_range_def map_nth_upt_drop_take split_blocks_nth)
qed

lemma block_range_bound:
  assumes "j < length ns"
  shows "list_all (\<lambda>i. i < sum_list ns) (block_range ns j)"
  using sum_list_take_le [OF assms] by (auto simp: list_all_iff block_range_def)

lemma map_pairs_upt:
  "map g [0..<2 * M] = concat (map (\<lambda>i. [g (2 * i), g (2 * i + 1)]) [0..<M])"
  by (induction M) auto

lemma transpose_2_table:
  "map f (ff_table (ff_transpose 2 N dtype)) = concat (map (\<lambda>i. [f i, f (N + i)]) [0..<N])"
proof -
  have "map f (ff_table (ff_transpose 2 N dtype)) =
        map (\<lambda>k. f ((k mod 2) * N + k div 2)) [0..<2 * N]"
    by (simp add: ff_transpose_def comp_def)
  also have "\<dots> = concat (map (\<lambda>i. [f ((2 * i mod 2) * N + 2 * i div 2),
                                     f (((2 * i + 1) mod 2) * N + (2 * i + 1) div 2)]) [0..<N])"
    by (rule map_pairs_upt)
  also have "\<dots> = concat (map (\<lambda>i. [f i, f (N + i)]) [0..<N])"
    by simp
  finally show ?thesis .
qed

lemma transpose_2_bound:
  "list_all (\<lambda>j. j < 2 * N) (ff_table (ff_transpose 2 N dtype))"
proof -
  have "(k mod 2) * N + k div 2 < 2 * N" if "k < 2 * N" for k
  proof (cases "k mod 2 = 0")
    case True
    with that show ?thesis by auto
  next
    case False
    then have "k mod 2 = 1" by presburger
    moreover have "k div 2 < N" using that by auto
    ultimately show ?thesis by simp
  qed
  then show ?thesis
    by (simp add: ff_transpose_def list_all_iff)
qed

lemma concat_pairs_zip:
  "length xs = N \<Longrightarrow> length ys = N \<Longrightarrow>
   concat (concat (map (\<lambda>i. [(xs @ ys) ! i, (xs @ ys) ! (N + i)]) [0..<N])) =
   concat (map2 (@) xs ys)"
proof -
  assume l: "length xs = N" "length ys = N"
  have "map2 (@) xs ys = map (\<lambda>i. xs ! i @ ys ! i) [0..<N]"
    using l by (intro nth_equalityI) simp_all
  moreover have "concat (map (\<lambda>i. [(xs @ ys) ! i, (xs @ ys) ! (N + i)]) [0..<N]) =
                 concat (map (\<lambda>i. [xs ! i, ys ! i]) [0..<N])"
    using l by (intro arg_cong [where f = concat] map_cong) (simp_all add: nth_append)
  moreover have "concat (concat (map (\<lambda>i. [xs ! i, ys ! i]) [0..<N])) =
                 concat (map (\<lambda>i. xs ! i @ ys ! i) [0..<N])"
    by (induction N) simp_all
  ultimately show ?thesis by simp
qed

text \<open>The interleaving of the values of two indexed coproducts.\<close>

lemma interleave_values:
  assumes "length sA = N" "length sB = N" "sum_list sA = length vA" "sum_list sB = length vB"
  shows "map ((!) (vA @ vB))
           (concat (map (block_range (sA @ sB)) (ff_table (ff_transpose 2 N dtype)))) =
         concat (map2 (@) (split_blocks sA vA) (split_blocks sB vB))"
proof -
  let ?bl = "split_blocks (sA @ sB) (vA @ vB)"
  have bl: "?bl = split_blocks sA vA @ split_blocks sB vB"
    using assms by (simp add: split_blocks_append)
  have each: "map ((!) (vA @ vB)) (block_range (sA @ sB) j) = ?bl ! j"
    if "j \<in> set (ff_table (ff_transpose 2 N dtype))" for j
  proof -
    have "j < 2 * N"
      using that transpose_2_bound [of N dtype] by (simp add: list_all_iff)
    then show ?thesis
      using assms by (intro map_nth_block_range) simp_all
  qed
  have "map ((!) (vA @ vB))
           (concat (map (block_range (sA @ sB)) (ff_table (ff_transpose 2 N dtype)))) =
        concat (map (\<lambda>j. map ((!) (vA @ vB)) (block_range (sA @ sB) j))
           (ff_table (ff_transpose 2 N dtype)))"
    by (simp add: map_concat comp_def)
  also have "\<dots> = concat (map (\<lambda>j. ?bl ! j) (ff_table (ff_transpose 2 N dtype)))"
    using each by (intro arg_cong [where f = concat] map_cong) simp_all
  also have "\<dots> = concat (concat (map (\<lambda>i. [?bl ! i, ?bl ! (N + i)]) [0..<N]))"
    by (simp only: transpose_2_table)
  also have "\<dots> = concat (map2 (@) (split_blocks sA vA) (split_blocks sB vB))"
    unfolding bl using assms by (intro concat_pairs_zip) (simp_all add: length_split_blocks)
  finally show ?thesis .
qed

lemma interleave_bound:
  assumes "length sA = N" "length sB = N"
  shows "list_all (\<lambda>i. i < sum_list (sA @ sB))
           (concat (map (block_range (sA @ sB)) (ff_table (ff_transpose 2 N dtype))))"
proof -
  have "list_all (\<lambda>i. i < sum_list (sA @ sB)) (block_range (sA @ sB) j)"
    if "j \<in> set (ff_table (ff_transpose 2 N dtype))" for j
  proof -
    have "j < 2 * N"
      using that transpose_2_bound [of N dtype] by (simp add: list_all_iff)
    then show ?thesis
      using assms by (intro block_range_bound) simp
  qed
  then show ?thesis
    by (auto simp: list_all_iff)
qed


lemma ic_coproduct_ok:
  assumes "wf_ic A" "wf_ic B" "ic_dtype A = ic_dtype B"
    "ff_target (ic_values A) = ff_target (ic_values B)"
  shows "ic_coproduct A B =
     Inr \<lparr>ic_sources = \<lparr>ff_target = None,
                         ff_table = ff_table (ic_sources A) @ ff_table (ic_sources B),
                         ff_dtype = ic_dtype A\<rparr>,
          ic_values = \<lparr>ff_target = ff_target (ic_values A),
                        ff_table = ff_table (ic_values A) @ ff_table (ic_values B),
                        ff_dtype = ic_dtype A\<rparr>\<rparr>"
  using assms
  by (simp add: ic_coproduct_def wf_ic_def ic_dtype_def ff_coproduct_def bindE_def)

lemma ff_injections_transpose:
  assumes "length sA = N" "length sB = N"
  shows "ff_injections \<lparr>ff_target = None, ff_table = sA @ sB, ff_dtype = dtype\<rparr>
           (ff_transpose 2 N dtype) =
         Inr \<lparr>ff_target = Some (sum_list (sA @ sB)),
              ff_table = concat (map (block_range (sA @ sB)) (ff_table (ff_transpose 2 N dtype))),
              ff_dtype = dtype\<rparr>"
proof -
  have b: "list_all (\<lambda>j. j < length sA + length sB) (ff_table (ff_transpose 2 N dtype))"
    using transpose_2_bound [of N dtype] assms by (simp add: mult_2)
  have t: "ff_target (ff_transpose 2 N dtype) = Some (length sA + length sB)"
    using assms by (simp add: ff_transpose_def)
  have d: "ff_dtype (ff_transpose 2 N dtype) = dtype"
    by (simp add: ff_transpose_def)
  show ?thesis
    using b by (simp add: ff_injections_def t d ff_source_def)
qed

lemma split_blocks_concat: "split_blocks (map length bs) (concat bs) = bs"
  by (induction bs) auto

lemma map_length_split_blocks:
  "sum_list ns \<le> length vs \<Longrightarrow> map length (split_blocks ns vs) = ns"
  by (induction ns arbitrary: vs) auto

lemma map_length_map2_append:
  "map length (map2 (@) xs ys) = map2 (+) (map length xs) (map length ys)"
  by (induction xs arbitrary: ys) (auto simp: zip_Cons1 split: list.splits)

lemma length_concat_map2_append:
  "length xs = length ys \<Longrightarrow>
   length (concat (map2 (@) xs ys)) = length (concat xs) + length (concat ys)"
  by (induction xs ys rule: list_induct2) auto

lemma concat_split_blocks:
  "sum_list ns = length vs \<Longrightarrow> concat (split_blocks ns vs) = vs"
proof (induction ns arbitrary: vs)
  case Nil
  then show ?case by simp
next
  case (Cons n ns)
  then have "sum_list ns = length (drop n vs)" by simp
  from Cons.IH [OF this] show ?case by simp
qed

section \<open>The coequalizer\<close>

text \<open>The merge keeps the invariant, and any function that agrees on every merged pair
  agrees on every element and its representative.\<close>

lemma valid_reps_upt: "valid_reps n [0..<n]"
  by (simp add: valid_reps_def)

lemma merge_classes_nth:
  "i < length rep \<Longrightarrow>
   merge_classes rep p ! i =
     (if rep ! i = max (rep ! fst p) (rep ! snd p) then min (rep ! fst p) (rep ! snd p)
      else rep ! i)"
  by (simp add: merge_classes_def Let_def)

lemma length_merge_classes: "length (merge_classes rep p) = length rep"
  by (simp add: merge_classes_def Let_def)

lemma merge_classes_valid:
  assumes v: "valid_reps n rep" and p: "fst p < n" "snd p < n"
  shows "valid_reps n (merge_classes rep p)"
proof -
  define x where "x = rep ! fst p"
  define y where "y = rep ! snd p"
  have len: "length rep = n"
    using v by (simp add: valid_reps_def)
  have fx: "x < n" "rep ! x = x" and fy: "y < n" "rep ! y = y"
    using v p by (simp_all add: valid_reps_def x_def y_def)
  have fa: "min x y < n" "rep ! min x y = min x y"
    using fx fy by (simp_all add: min_def)
  have nth: "merge_classes rep p ! i = (if rep ! i = max x y then min x y else rep ! i)"
    if "i < n" for i
    using that len by (simp add: merge_classes_nth x_def y_def)
  have "merge_classes rep p ! i < n \<and>
        merge_classes rep p ! (merge_classes rep p ! i) = merge_classes rep p ! i"
    if i: "i < n" for i
  proof (cases "rep ! i = max x y")
    case True
    then have e: "merge_classes rep p ! i = min x y"
      using nth [OF i] by simp
    have "merge_classes rep p ! min x y = min x y"
      using nth [OF fa(1)] fa(2) by simp
    with e fa(1) show ?thesis by simp
  next
    case False
    then have e: "merge_classes rep p ! i = rep ! i"
      using nth [OF i] by simp
    have r: "rep ! i < n" "rep ! (rep ! i) = rep ! i"
      using v i by (simp_all add: valid_reps_def)
    have "merge_classes rep p ! (rep ! i) = rep ! i"
      using nth [OF r(1)] r(2) False by simp
    with e r(1) show ?thesis by simp
  qed
  then show ?thesis
    using len by (simp add: valid_reps_def length_merge_classes)
qed

lemma merge_classes_respects:
  assumes v: "valid_reps n rep" and p: "fst p < n" "snd p < n"
    and r: "\<forall>i<n. h (rep ! i) = h i" and e: "h (fst p) = h (snd p)"
  shows "\<forall>i<n. h (merge_classes rep p ! i) = h i"
proof (intro allI impI)
  fix i assume i: "i < n"
  define x where "x = rep ! fst p"
  define y where "y = rep ! snd p"
  have len: "length rep = n"
    using v by (simp add: valid_reps_def)
  have "h x = h y"
    using r p e by (simp add: x_def y_def)
  then have m: "h (min x y) = h (max x y)"
    by (simp add: min_def max_def)
  have nth: "merge_classes rep p ! i = (if rep ! i = max x y then min x y else rep ! i)"
    using i len by (simp add: merge_classes_nth x_def y_def)
  show "h (merge_classes rep p ! i) = h i"
  proof (cases "rep ! i = max x y")
    case True
    then have "h (merge_classes rep p ! i) = h (rep ! i)"
      using nth m by simp
    then show ?thesis using r i by simp
  next
    case False
    then show ?thesis using nth r i by simp
  qed
qed

lemma foldl_merge_valid:
  "valid_reps n rep \<Longrightarrow> \<forall>p\<in>set ps. fst p < n \<and> snd p < n \<Longrightarrow>
   valid_reps n (foldl merge_classes rep ps)"
  by (induction ps arbitrary: rep) (simp_all add: merge_classes_valid)

lemma foldl_merge_respects:
  "valid_reps n rep \<Longrightarrow> \<forall>p\<in>set ps. fst p < n \<and> snd p < n \<and> h (fst p) = h (snd p) \<Longrightarrow>
   \<forall>i<n. h (rep ! i) = h i \<Longrightarrow>
   \<forall>i<n. h (foldl merge_classes rep ps ! i) = h i"
proof (induction ps arbitrary: rep)
  case Nil
  then show ?case by simp
next
  case (Cons p ps)
  have v: "valid_reps n (merge_classes rep p)"
    using Cons.prems by (simp add: merge_classes_valid)
  have r: "\<forall>i<n. h (merge_classes rep p ! i) = h i"
    using Cons.prems by (intro merge_classes_respects) simp_all
  show ?case
    using Cons.IH [OF v _ r] Cons.prems(2) by simp
qed

lemma class_reps_valid:
  "\<forall>p\<in>set ps. fst p < n \<and> snd p < n \<Longrightarrow> valid_reps n (class_reps n ps)"
  unfolding class_reps_def by (rule foldl_merge_valid [OF valid_reps_upt])

lemma class_reps_respects:
  assumes "\<forall>p\<in>set ps. fst p < n \<and> snd p < n \<and> h (fst p) = h (snd p)" "i < n"
  shows "h (class_reps n ps ! i) = h i"
  using foldl_merge_respects [OF valid_reps_upt assms(1)] assms(2)
  by (simp add: class_reps_def)

text \<open>Merged pairs stay merged.\<close>

lemma merge_classes_keeps:
  assumes "i < length rep" "j < length rep" "rep ! i = rep ! j"
  shows "merge_classes rep p ! i = merge_classes rep p ! j"
  using assms by (simp only: merge_classes_nth)

lemma merge_classes_joins:
  assumes "fst p < length rep" "snd p < length rep"
  shows "merge_classes rep p ! fst p = merge_classes rep p ! snd p"
proof -
  define x where "x = rep ! fst p"
  define y where "y = rep ! snd p"
  have a: "merge_classes rep p ! fst p = (if x = max x y then min x y else x)"
    using assms(1) by (simp only: merge_classes_nth x_def y_def)
  have b: "merge_classes rep p ! snd p = (if y = max x y then min x y else y)"
    using assms(2) by (simp only: merge_classes_nth x_def y_def)
  show ?thesis
    unfolding a b by (cases "x \<le> y") (simp_all add: min_def max_def)
qed

lemma foldl_merge_keeps:
  "i < length rep \<Longrightarrow> j < length rep \<Longrightarrow> rep ! i = rep ! j \<Longrightarrow>
   foldl merge_classes rep ps ! i = foldl merge_classes rep ps ! j"
proof (induction ps arbitrary: rep)
  case Nil
  then show ?case by simp
next
  case (Cons a ps)
  have "merge_classes rep a ! i = merge_classes rep a ! j"
    using Cons.prems by (rule merge_classes_keeps)
  moreover have "i < length (merge_classes rep a)" "j < length (merge_classes rep a)"
    using Cons.prems by (simp_all only: length_merge_classes)
  ultimately have "foldl merge_classes (merge_classes rep a) ps ! i =
                   foldl merge_classes (merge_classes rep a) ps ! j"
    using Cons.IH by blast
  then show ?case by simp
qed

lemma foldl_merge_joins:
  "\<forall>p\<in>set ps. fst p < length rep \<and> snd p < length rep \<Longrightarrow> p \<in> set ps \<Longrightarrow>
   foldl merge_classes rep ps ! fst p = foldl merge_classes rep ps ! snd p"
proof (induction ps arbitrary: rep)
  case Nil
  then show ?case by simp
next
  case (Cons a ps)
  have la: "fst a < length rep" "snd a < length rep"
    using Cons.prems(1) by simp_all
  show ?case
  proof (cases "p = a")
    case True
    have "merge_classes rep a ! fst a = merge_classes rep a ! snd a"
      using la by (rule merge_classes_joins)
    moreover have "fst a < length (merge_classes rep a)" "snd a < length (merge_classes rep a)"
      using la by (simp_all only: length_merge_classes)
    ultimately have "foldl merge_classes (merge_classes rep a) ps ! fst a =
                     foldl merge_classes (merge_classes rep a) ps ! snd a"
      by (intro foldl_merge_keeps)
    then show ?thesis
      using True by simp
  next
    case False
    then have m: "p \<in> set ps" using Cons.prems(2) by simp
    have b: "\<forall>p\<in>set ps. fst p < length (merge_classes rep a) \<and>
                          snd p < length (merge_classes rep a)"
      using Cons.prems(1) by (simp add: length_merge_classes)
    from Cons.IH [OF b m] show ?thesis by simp
  qed
qed

lemma class_reps_joins:
  "\<forall>p\<in>set ps. fst p < n \<and> snd p < n \<Longrightarrow> p \<in> set ps \<Longrightarrow>
   class_reps n ps ! fst p = class_reps n ps ! snd p"
  unfolding class_reps_def by (rule foldl_merge_joins) simp_all

text \<open>Ranks of representatives.\<close>

lemma rank_of_mono: "a \<le> b \<Longrightarrow> rank_of rep a \<le> rank_of rep b"
proof -
  assume "a \<le> b"
  then have "[0..<b] = [0..<a] @ [a..<b]"
    by (metis le_add_diff_inverse upt_add_eq_append zero_le)
  then show ?thesis
    by (simp add: rank_of_def)
qed

lemma rank_of_strict:
  assumes "a < b" "rep ! a = a"
  shows "rank_of rep a < rank_of rep b"
proof -
  have "rank_of rep (Suc a) = Suc (rank_of rep a)"
    using assms(2) by (simp add: rank_of_def)
  moreover have "rank_of rep (Suc a) \<le> rank_of rep b"
    using assms(1) by (intro rank_of_mono) simp
  ultimately show ?thesis by simp
qed

lemma rank_of_inj:
  assumes "rep ! a = a" "rep ! b = b" "rank_of rep a = rank_of rep b"
  shows "a = b"
proof (rule ccontr)
  assume "a \<noteq> b"
  then consider "a < b" | "b < a" by linarith
  then show False
  proof cases
    case 1
    from rank_of_strict [OF 1 assms(1)] assms(3) show False by simp
  next
    case 2
    from rank_of_strict [OF 2 assms(2)] assms(3) show False by simp
  qed
qed

lemma rank_of_le: "rank_of rep n \<le> n"
  using length_filter_le [of "\<lambda>j. rep ! j = j" "[0..<n]"] by (simp add: rank_of_def)

section \<open>Composition\<close>

lemma ff_compose_ok:
  assumes "ff_dtype a = ff_dtype b" "ff_target a = Some (length (ff_table b))"
    "list_all (\<lambda>i. i < length (ff_table b)) (ff_table a)"
  shows "ff_compose a b =
     Inr \<lparr>ff_target = ff_target b, ff_table = map ((!) (ff_table b)) (ff_table a),
          ff_dtype = ff_dtype a\<rparr>"
  using assms by (simp add: ff_compose_def ff_source_def)

lemma ff_inject0_ok:
  assumes "ff_target a = Some m" "list_all (\<lambda>i. i < m) (ff_table a)"
  shows "ff_inject0 a k =
     Inr \<lparr>ff_target = Some (m + k), ff_table = ff_table a, ff_dtype = ff_dtype a\<rparr>"
proof -
  have "map ((!) [0..<m]) (ff_table a) = ff_table a"
    using assms(2) by (induction "ff_table a" arbitrary: a) (auto simp: list_all_iff map_idI)
  then show ?thesis
    using assms by (simp add: ff_inject0_def ff_compose_def ff_inj0_def ff_source_def)
qed

lemma ff_inject1_ok:
  assumes "ff_target a = Some m" "list_all (\<lambda>i. i < m) (ff_table a)"
  shows "ff_inject1 a k =
     Inr \<lparr>ff_target = Some (k + m), ff_table = map (\<lambda>i. k + i) (ff_table a),
          ff_dtype = ff_dtype a\<rparr>"
proof -
  have "map ((!) (map (\<lambda>i. k + i) [0..<m])) (ff_table a) = map (\<lambda>i. k + i) (ff_table a)"
    using assms(2) by (auto simp: list_all_iff)
  then show ?thesis
    using assms by (simp add: ff_inject1_def ff_compose_def ff_inj1_def ff_source_def)
qed

lemma ff_coequalizer_ok:
  assumes "ff_dtype a = ff_dtype b" "length (ff_table a) = length (ff_table b)"
    "ff_target a = Some n" "ff_target b = Some n"
    "list_all (\<lambda>i. i < n) (ff_table a)" "list_all (\<lambda>i. i < n) (ff_table b)"
  shows "ff_coequalizer a b =
     Inr \<lparr>ff_target = Some (rank_of (class_reps n (zip (ff_table a) (ff_table b))) n),
          ff_table = map (rank_of (class_reps n (zip (ff_table a) (ff_table b))))
                       (class_reps n (zip (ff_table a) (ff_table b))),
          ff_dtype = ff_dtype a\<rparr>"
  using assms by (simp add: ff_coequalizer_def ff_source_def Let_def)

text \<open>The quotient map: its entries are below the number of classes, and elements with
  the same class have the same representative.\<close>

lemma quotient_bound:
  assumes "valid_reps n rep" "i < n"
  shows "map (rank_of rep) rep ! i < rank_of rep n"
proof -
  have "rep ! i < n" "rep ! (rep ! i) = rep ! i" "length rep = n"
    using assms by (simp_all add: valid_reps_def)
  then show ?thesis
    using assms(2) by (simp add: rank_of_strict)
qed

lemma quotient_kernel:
  assumes "valid_reps n rep" "i < n" "j < n"
    "map (rank_of rep) rep ! i = map (rank_of rep) rep ! j"
  shows "rep ! i = rep ! j"
proof -
  have l: "length rep = n"
    using assms(1) by (simp add: valid_reps_def)
  have "rep ! (rep ! i) = rep ! i" "rep ! (rep ! j) = rep ! j"
    using assms by (simp_all add: valid_reps_def)
  moreover have "rank_of rep (rep ! i) = rank_of rep (rep ! j)"
    using assms l by simp
  ultimately show ?thesis
    by (rule rank_of_inj)
qed

lemma quotient_labels_nth:
  assumes "ff_source q = n" "i < n" "ff_table q ! i < Q"
    "\<forall>j<n. ff_table q ! j = ff_table q ! i \<longrightarrow> ff_table w ! j = ff_table w ! i"
  shows "ff_table (quotient_labels q w Q) ! (ff_table q ! i) = ff_table w ! i"
proof -
  have "find (\<lambda>j. ff_table q ! j = ff_table q ! i) [0..<n] \<noteq> None"
    using assms(2) by (auto simp: find_None_iff)
  then obtain j where j: "find (\<lambda>j. ff_table q ! j = ff_table q ! i) [0..<n] = Some j"
    by blast
  then have "j < n \<and> ff_table q ! j = ff_table q ! i"
    by (auto simp: find_Some_iff)
  then have "ff_table w ! j = ff_table w ! i"
    using assms(4) by blast
  then show ?thesis
    using assms(1,3) j by (simp add: quotient_labels_def)
qed

lemma quotient_labels_bound:
  assumes "ff_source q = n" "\<forall>j<n. ff_table w ! j < m" "0 < m"
  shows "list_all (\<lambda>l. l < m) (ff_table (quotient_labels q w Q))"
proof -
  have "(case find (\<lambda>i. ff_table q ! i = k) [0..<n] of
           Some i \<Rightarrow> ff_table w ! i | None \<Rightarrow> 0) < m" for k
  proof (cases "find (\<lambda>i. ff_table q ! i = k) [0..<n]")
    case None
    then show ?thesis using assms(3) by simp
  next
    case (Some j)
    then have "j < n" by (auto simp: find_Some_iff)
    then show ?thesis using Some assms(2) by simp
  qed
  then show ?thesis
    using assms(1) by (simp add: quotient_labels_def list_all_iff)
qed

lemma quotient_labels_fields:
  "ff_target (quotient_labels q w Q) = ff_target w"
  "ff_dtype (quotient_labels q w Q) = ff_dtype w"
  "length (ff_table (quotient_labels q w Q)) = Q"
  by (simp_all add: quotient_labels_def)


lemma wf_oh_fields:
  assumes "wf_oh f"
  shows "ff_dtype (oh_t f) = ff_dtype (oh_s f)"
    "ff_dtype (hg_w (oh_H f)) = ff_dtype (oh_s f)"
    "ff_dtype (hg_x (oh_H f)) = ff_dtype (oh_s f)"
    "ic_dtype (hg_s (oh_H f)) = ff_dtype (oh_s f)"
    "ic_dtype (hg_t (oh_H f)) = ff_dtype (oh_s f)"
    "ff_target (oh_s f) = Some (length (ff_table (hg_w (oh_H f))))"
    "ff_target (oh_t f) = Some (length (ff_table (hg_w (oh_H f))))"
    "list_all (\<lambda>i. i < length (ff_table (hg_w (oh_H f)))) (ff_table (oh_s f))"
    "list_all (\<lambda>i. i < length (ff_table (hg_w (oh_H f)))) (ff_table (oh_t f))"
    "ff_target (ic_values (hg_s (oh_H f))) = Some (length (ff_table (hg_w (oh_H f))))"
    "ff_target (ic_values (hg_t (oh_H f))) = Some (length (ff_table (hg_w (oh_H f))))"
    "list_all (\<lambda>i. i < length (ff_table (hg_w (oh_H f)))) (ff_table (ic_values (hg_s (oh_H f))))"
    "list_all (\<lambda>i. i < length (ff_table (hg_w (oh_H f)))) (ff_table (ic_values (hg_t (oh_H f))))"
  using assms
  by (auto simp: wf_oh_def wf_hg_def wf_ic_def wf_ff_def post_init_ok_def hg_dtype_def hg_W_def
      ff_source_def)

lemma wf_oh_source:
  assumes "wf_oh f"
  shows "source f = Inr \<lparr>ff_target = ff_target (hg_w (oh_H f)),
                         ff_table = map ((!) (ff_table (hg_w (oh_H f)))) (ff_table (oh_s f)),
                         ff_dtype = ff_dtype (oh_s f)\<rparr>"
  unfolding source_def using wf_oh_fields [OF assms] by (intro ff_compose_ok) simp_all

lemma wf_oh_target:
  assumes "wf_oh f"
  shows "target f = Inr \<lparr>ff_target = ff_target (hg_w (oh_H f)),
                         ff_table = map ((!) (ff_table (hg_w (oh_H f)))) (ff_table (oh_t f)),
                         ff_dtype = ff_dtype (oh_s f)\<rparr>"
proof -
  have "target f = Inr \<lparr>ff_target = ff_target (hg_w (oh_H f)),
                         ff_table = map ((!) (ff_table (hg_w (oh_H f)))) (ff_table (oh_t f)),
                         ff_dtype = ff_dtype (oh_t f)\<rparr>"
    unfolding target_def using wf_oh_fields [OF assms] by (intro ff_compose_ok) simp_all
  then show ?thesis
    using wf_oh_fields(1) [OF assms] by simp
qed


lemma wf_oh_more:
  assumes "wf_oh f"
  shows "sum_list (ff_table (ic_sources (hg_s (oh_H f)))) =
           length (ff_table (ic_values (hg_s (oh_H f))))"
    "sum_list (ff_table (ic_sources (hg_t (oh_H f)))) =
           length (ff_table (ic_values (hg_t (oh_H f))))"
    "length (ff_table (ic_sources (hg_s (oh_H f)))) = length (ff_table (hg_x (oh_H f)))"
    "length (ff_table (ic_sources (hg_t (oh_H f)))) = length (ff_table (hg_x (oh_H f)))"
    "\<exists>k. ff_target (hg_w (oh_H f)) = Some k \<and>
         list_all (\<lambda>i. i < k) (ff_table (hg_w (oh_H f)))"
    "\<exists>k. ff_target (hg_x (oh_H f)) = Some k \<and>
         list_all (\<lambda>i. i < k) (ff_table (hg_x (oh_H f)))"
  using assms
  by (auto simp: wf_oh_def wf_hg_def wf_ic_def wf_ff_def ic_len_def hg_X_def ff_source_def
      split: option.splits)

lemma compose_ok:
  assumes f: "wf_oh f" and g: "wf_oh g"
    and eq: "target f = source g"
    and xs: "ff_target (hg_x (oh_H f)) = ff_target (hg_x (oh_H g))"
  shows "\<exists>h A C. compose f g = Inr h \<and> wf_oh h \<and>
           source f = Inr A \<and> target g = Inr C \<and> source h = Inr A \<and> target h = Inr C"
proof -
  define d where "d = ff_dtype (oh_s f)"
  define sf where "sf = ff_table (oh_s f)"
  define tf where "tf = ff_table (oh_t f)"
  define sg where "sg = ff_table (oh_s g)"
  define tg where "tg = ff_table (oh_t g)"
  define lf where "lf = ff_table (hg_w (oh_H f))"
  define lg where "lg = ff_table (hg_w (oh_H g))"
  define Wf where "Wf = length lf"
  define Wg where "Wg = length lg"
  define n where "n = Wf + Wg"
  define m where "m = ff_target (hg_w (oh_H f))"
  define lab where "lab = lf @ lg"
  define ps where "ps = zip tf (map (\<lambda>i. Wf + i) sg)"
  define rep where "rep = class_reps n ps"
  define qt where "qt = map (rank_of rep) rep"
  define Q where "Q = rank_of rep n"
  define q where "q = \<lparr>ff_target = Some Q, ff_table = qt, ff_dtype = d\<rparr>"
  note ff = wf_oh_fields [OF f, folded d_def sf_def tf_def lf_def Wf_def]
  note gg = wf_oh_fields [OF g, folded sg_def tg_def lg_def Wg_def]
  have W: "hg_W (oh_H f) = Wf" "hg_W (oh_H g) = Wg"
    by (simp_all add: hg_W_def ff_source_def Wf_def Wg_def lf_def lg_def)
  text \<open>What the assertion says.\<close>
  have tF: "target f = Inr \<lparr>ff_target = m, ff_table = map ((!) lf) tf, ff_dtype = d\<rparr>"
    using wf_oh_target [OF f] by (simp add: m_def lf_def tf_def d_def)
  have sG: "source g = Inr \<lparr>ff_target = ff_target (hg_w (oh_H g)),
                             ff_table = map ((!) lg) sg, ff_dtype = ff_dtype (oh_s g)\<rparr>"
    using wf_oh_source [OF g] by (simp add: lg_def sg_def)
  have e: "ff_target (hg_w (oh_H g)) = m" "map ((!) lf) tf = map ((!) lg) sg"
    "ff_dtype (oh_s g) = d"
    using eq tF sG by simp_all
  have lts: "length tf = length sg"
    using e(2) by (metis length_map)
  have sig: "same_signature f g"
    using e xs by (simp add: same_signature_def d_def m_def)
  have sF: "source f = Inr \<lparr>ff_target = m, ff_table = map ((!) lf) sf, ff_dtype = d\<rparr>"
    using wf_oh_source [OF f] by (simp add: m_def lf_def sf_def d_def)
  have tG: "target g = Inr \<lparr>ff_target = m, ff_table = map ((!) lg) tg, ff_dtype = d\<rparr>"
    using wf_oh_target [OF g] e by (simp add: lg_def tg_def)
  text \<open>The quotient map.\<close>
  have pb: "\<forall>p\<in>set ps. fst p < n \<and> snd p < n"
  proof
    fix p assume "p \<in> set ps"
    then obtain k where k: "k < length tf" "k < length sg" "p = (tf ! k, Wf + sg ! k)"
      by (auto simp: ps_def in_set_zip)
    have "tf ! k < Wf" "sg ! k < Wg"
      using ff(9) gg(8) k by (simp_all add: list_all_length)
    then show "fst p < n \<and> snd p < n"
      using k by (simp add: n_def)
  qed
  have v: "valid_reps n rep"
    unfolding rep_def by (rule class_reps_valid [OF pb])
  have ql: "length qt = n"
    using v by (simp add: qt_def valid_reps_def)
  have qb: "qt ! i < Q" if "i < n" for i
    unfolding qt_def Q_def by (rule quotient_bound [OF v that])
  have resp: "\<forall>p\<in>set ps. fst p < n \<and> snd p < n \<and> lab ! fst p = lab ! snd p"
  proof
    fix p assume p: "p \<in> set ps"
    then obtain k where k: "k < length tf" "k < length sg" "p = (tf ! k, Wf + sg ! k)"
      by (auto simp: ps_def in_set_zip)
    have b: "tf ! k < Wf" "sg ! k < Wg"
      using ff(9) gg(8) k by (simp_all add: list_all_length)
    have "map ((!) lf) tf ! k = map ((!) lg) sg ! k"
      using e(2) by simp
    then have "lf ! (tf ! k) = lg ! (sg ! k)"
      using k by simp
    then have "lab ! fst p = lab ! snd p"
      using k b by (simp add: lab_def nth_append Wf_def)
    then show "fst p < n \<and> snd p < n \<and> lab ! fst p = lab ! snd p"
      using pb p by blast
  qed
  have ker: "lab ! i = lab ! j" if "i < n" "j < n" "qt ! i = qt ! j" for i j
  proof -
    have "rep ! i = rep ! j"
      using that by (intro quotient_kernel [OF v]) (simp_all add: qt_def)
    moreover have "lab ! (rep ! i) = lab ! i" "lab ! (rep ! j) = lab ! j"
      unfolding rep_def using that by (auto intro: class_reps_respects [OF resp])
    ultimately show ?thesis by simp
  qed
  text \<open>The steps of the computation.\<close>
  define xH where "xH = \<lparr>ff_target = ff_target (hg_x (oh_H f)),
                       ff_table = ff_table (hg_x (oh_H f)) @ ff_table (hg_x (oh_H g)),
                       ff_dtype = d\<rparr>"
  define sH where "sH = \<lparr>ic_sources = \<lparr>ff_target = None,
                ff_table = ff_table (ic_sources (hg_s (oh_H f))) @
                           ff_table (ic_sources (hg_s (oh_H g))), ff_dtype = d\<rparr>,
              ic_values = \<lparr>ff_target = Some n,
                ff_table = ff_table (ic_values (hg_s (oh_H f))) @
                           map (\<lambda>i. Wf + i) (ff_table (ic_values (hg_s (oh_H g)))),
                ff_dtype = d\<rparr>\<rparr>"
  define tH where "tH = \<lparr>ic_sources = \<lparr>ff_target = None,
                ff_table = ff_table (ic_sources (hg_t (oh_H f))) @
                           ff_table (ic_sources (hg_t (oh_H g))), ff_dtype = d\<rparr>,
              ic_values = \<lparr>ff_target = Some n,
                ff_table = ff_table (ic_values (hg_t (oh_H f))) @
                           map (\<lambda>i. Wf + i) (ff_table (ic_values (hg_t (oh_H g)))),
                ff_dtype = d\<rparr>\<rparr>"
  define H where "H = \<lparr>hg_s = sH, hg_t = tH,
                        hg_w = \<lparr>ff_target = m, ff_table = lab, ff_dtype = d\<rparr>, hg_x = xH\<rparr>"
  have H: "hg_coproduct (oh_H f) (oh_H g) = Inr H"
  proof -
    have "hg_dtype (oh_H f) = d" "hg_dtype (oh_H f) = hg_dtype (oh_H g)"
      using ff(2) gg(2) e(3) by (simp_all add: hg_dtype_def)
    moreover have "wf_hg (oh_H f)" "wf_hg (oh_H g)"
      using f g by (simp_all add: wf_oh_def)
    moreover have "ff_target (hg_w (oh_H f)) = ff_target (hg_w (oh_H g))"
      using e(1) by (simp add: m_def)
    ultimately show ?thesis
      using xs hg_coproduct_ok [of "oh_H f" "oh_H g"]
      by (simp add: W n_def lab_def lf_def lg_def m_def H_def sH_def tH_def xH_def)
  qed
  have Hw: "hg_w H = \<lparr>ff_target = m, ff_table = lab, ff_dtype = d\<rparr>"
    by (simp add: H_def)
  have ten: "\<exists>h. tensor f g = Inr h \<and> oh_H h = H"
    using ff(1,6,7) gg(1,6,7) e(3) Hw
    by (simp add: tensor_def ff_tensor_ok [of "oh_s f" "oh_s g" Wf Wg]
        ff_tensor_ok [of "oh_t f" "oh_t g" Wf Wg] H bindE_def new_OpenHypergraph_def
        hg_dtype_def d_def)
  have ft0: "ff_inject0 (oh_t f) Wg = Inr \<lparr>ff_target = Some n, ff_table = tf, ff_dtype = d\<rparr>"
    using ff_inject0_ok [of "oh_t f" Wf Wg] ff(1,7,9) by (simp add: n_def tf_def d_def)
  have gs1: "ff_inject1 (oh_s g) Wf =
      Inr \<lparr>ff_target = Some n, ff_table = map (\<lambda>i. Wf + i) sg, ff_dtype = d\<rparr>"
    using ff_inject1_ok [of "oh_s g" Wg Wf] gg(6,8) e(3) by (simp add: n_def sg_def)
  have co: "ff_coequalizer \<lparr>ff_target = Some n, ff_table = tf, ff_dtype = d\<rparr>
              \<lparr>ff_target = Some n, ff_table = map (\<lambda>i. Wf + i) sg, ff_dtype = d\<rparr> = Inr q"
  proof -
    have "list_all (\<lambda>i. i < n) tf" "list_all (\<lambda>i. i < n) (map (\<lambda>i. Wf + i) sg)"
      using ff(9) gg(8) by (auto simp: list_all_iff n_def)
    then show ?thesis
      using lts
        ff_coequalizer_ok [of "\<lparr>ff_target = Some n, ff_table = tf, ff_dtype = d\<rparr>"
          "\<lparr>ff_target = Some n, ff_table = map (\<lambda>i. Wf + i) sg, ff_dtype = d\<rparr>" n]
      by (simp add: q_def qt_def Q_def rep_def ps_def)
  qed
  define s' where "s' = \<lparr>ff_target = Some Q, ff_table = map ((!) qt) sf, ff_dtype = d\<rparr>"
  define t' where "t' = \<lparr>ff_target = Some Q, ff_table = map (\<lambda>i. qt ! (Wf + i)) tg,
                          ff_dtype = d\<rparr>"
  have s0: "ff_inject0 (oh_s f) Wg = Inr \<lparr>ff_target = Some n, ff_table = sf, ff_dtype = d\<rparr>"
    using ff_inject0_ok [of "oh_s f" Wf Wg] ff(6,8) by (simp add: n_def sf_def d_def)
  have s1: "ff_compose \<lparr>ff_target = Some n, ff_table = sf, ff_dtype = d\<rparr> q = Inr s'"
  proof -
    have "list_all (\<lambda>i. i < length qt) sf"
      using ff(8) ql by (auto simp: list_all_iff n_def)
    then show ?thesis
      using ql by (simp add: ff_compose_def q_def s'_def ff_source_def)
  qed
  have t0: "ff_inject1 (oh_t g) Wf =
      Inr \<lparr>ff_target = Some n, ff_table = map (\<lambda>i. Wf + i) tg, ff_dtype = d\<rparr>"
    using ff_inject1_ok [of "oh_t g" Wg Wf] gg(1,7,9) e(3) by (simp add: n_def tg_def)
  have t1: "ff_compose \<lparr>ff_target = Some n, ff_table = map (\<lambda>i. Wf + i) tg, ff_dtype = d\<rparr> q =
            Inr t'"
  proof -
    have "list_all (\<lambda>i. i < length qt) (map (\<lambda>i. Wf + i) tg)"
      using gg(9) ql by (auto simp: list_all_iff n_def)
    then show ?thesis
      using ql by (simp add: ff_compose_def q_def t'_def ff_source_def comp_def)
  qed
  define sv where "sv = \<lparr>ff_target = Some Q,
      ff_table = map ((!) qt) (ff_table (ic_values sH)), ff_dtype = d\<rparr>"
  define tv where "tv = \<lparr>ff_target = Some Q,
      ff_table = map ((!) qt) (ff_table (ic_values tH)), ff_dtype = d\<rparr>"
  define w' where "w' = quotient_labels q \<lparr>ff_target = m, ff_table = lab, ff_dtype = d\<rparr> Q"
  define H' where "H' = \<lparr>hg_s = \<lparr>ic_sources = ic_sources sH, ic_values = sv\<rparr>,
                          hg_t = \<lparr>ic_sources = ic_sources tH, ic_values = tv\<rparr>,
                          hg_w = w', hg_x = xH\<rparr>"
  define h where "h = \<lparr>oh_s = s', oh_t = t', oh_H = H'\<rparr>"
  have svb: "list_all (\<lambda>i. i < n) (ff_table (ic_values sH))"
    using ff(12) gg(12) by (auto simp: sH_def list_all_iff n_def)
  have tvb: "list_all (\<lambda>i. i < n) (ff_table (ic_values tH))"
    using ff(13) gg(13) by (auto simp: tH_def list_all_iff n_def)
  have c1: "ff_compose (ic_values sH) q = Inr sv"
    using svb ql by (simp add: ff_compose_def q_def sv_def ff_source_def sH_def)
  have c2: "ff_compose (ic_values tH) q = Inr tv"
    using tvb ql by (simp add: ff_compose_def q_def tv_def ff_source_def tH_def)
  have Hsel: "hg_s H = sH" "hg_t H = tH" "hg_x H = xH"
    by (simp_all add: H_def)
  have qs: "ff_source q = hg_W H"
    using ql by (simp add: q_def hg_W_def Hw ff_source_def lab_def n_def Wf_def Wg_def)
  have qtg: "ff_target q = Some Q"
    by (simp add: q_def)
  have cv: "hg_coequalize_vertices H q = Inr H'"
    by (simp add: hg_coequalize_vertices_def qs qtg Hsel Hw c1 c2 bindE_def H'_def w'_def)
  obtain h0 where h0: "tensor f g = Inr h0" "oh_H h0 = H"
    using ten by blast
  have w'f: "ff_target w' = m" "ff_dtype w' = d" "length (ff_table w') = Q"
    by (simp_all add: w'_def quotient_labels_fields)
  have nw: "new_OpenHypergraph s' t' H' = Inr h"
    by (simp add: new_OpenHypergraph_def s'_def t'_def H'_def hg_dtype_def w'f h_def)
  have res: "compose f g = Inr h"
    by (simp add: compose_def bindE_def tF sG e W h0 ft0 gs1 co s0 s1 t0 t1 cv nw)
  text \<open>The labels of the quotient.\<close>
  have ul: "ff_table w' ! (qt ! i) = lab ! i" if i: "i < n" for i
  proof -
    define W0 where "W0 = \<lparr>ff_target = m, ff_table = lab, ff_dtype = d\<rparr>"
    have a1: "ff_source q = n"
      by (simp add: q_def ff_source_def ql)
    have a3: "ff_table q ! i < Q"
      using qb [OF i] by (simp add: q_def)
    have a4: "\<forall>j<n. ff_table q ! j = ff_table q ! i \<longrightarrow> ff_table W0 ! j = ff_table W0 ! i"
    proof (intro allI impI)
      fix j assume j: "j < n" and "ff_table q ! j = ff_table q ! i"
      then have "qt ! j = qt ! i"
        by (simp add: q_def)
      from ker [OF j i this] show "ff_table W0 ! j = ff_table W0 ! i"
        by (simp add: W0_def)
    qed
    have "ff_table (quotient_labels q W0 Q) ! (ff_table q ! i) = ff_table W0 ! i"
      by (rule quotient_labels_nth [OF a1 i a3 a4])
    then show ?thesis
      by (simp add: w'_def W0_def q_def)
  qed
  have sfb: "i < Wf" if "i \<in> set sf" for i
    using ff(8) that by (simp add: list_all_iff)
  have tgb: "i < Wg" if "i \<in> set tg" for i
    using gg(9) that by (simp add: list_all_iff)
  have srcH: "source h = Inr \<lparr>ff_target = m, ff_table = map ((!) lf) sf, ff_dtype = d\<rparr>"
  proof -
    have "qt ! i < Q" if "i \<in> set sf" for i
      using sfb [OF that] by (intro qb) (simp add: n_def)
    then have b: "list_all (\<lambda>i. i < length (ff_table w')) (ff_table s')"
      by (simp add: s'_def w'f list_all_iff)
    have "ff_table w' ! (qt ! i) = lf ! i" if "i \<in> set sf" for i
    proof -
      have "ff_table w' ! (qt ! i) = lab ! i"
        using sfb [OF that] by (intro ul) (simp add: n_def)
      then show ?thesis
        using sfb [OF that] by (simp add: lab_def nth_append Wf_def)
    qed
    then have c: "map ((!) (ff_table w')) (map ((!) qt) sf) = map ((!) lf) sf"
      by simp
    have "ff_compose s' w' =
        Inr \<lparr>ff_target = ff_target w', ff_table = map ((!) (ff_table w')) (ff_table s'),
             ff_dtype = ff_dtype s'\<rparr>"
      using b by (intro ff_compose_ok) (simp_all add: s'_def w'f)
    then show ?thesis
      using c by (simp add: source_def h_def H'_def w'f s'_def)
  qed
  have tgtH: "target h = Inr \<lparr>ff_target = m, ff_table = map ((!) lg) tg, ff_dtype = d\<rparr>"
  proof -
    have "qt ! (Wf + i) < Q" if "i \<in> set tg" for i
      using tgb [OF that] by (intro qb) (simp add: n_def)
    then have b: "list_all (\<lambda>i. i < length (ff_table w')) (ff_table t')"
      by (simp add: t'_def w'f list_all_iff)
    have "ff_table w' ! (qt ! (Wf + i)) = lg ! i" if "i \<in> set tg" for i
    proof -
      have "ff_table w' ! (qt ! (Wf + i)) = lab ! (Wf + i)"
        using tgb [OF that] by (intro ul) (simp add: n_def)
      then show ?thesis
        by (simp add: lab_def nth_append Wf_def)
    qed
    then have c: "map ((!) (ff_table w')) (map (\<lambda>i. qt ! (Wf + i)) tg) = map ((!) lg) tg"
      by simp
    have "ff_compose t' w' =
        Inr \<lparr>ff_target = ff_target w', ff_table = map ((!) (ff_table w')) (ff_table t'),
             ff_dtype = ff_dtype t'\<rparr>"
      using b by (intro ff_compose_ok) (simp_all add: t'_def w'f)
    then show ?thesis
      using c by (simp add: target_def h_def H'_def w'f t'_def)
  qed
  text \<open>The result is well-formed.\<close>
  note fm = wf_oh_more [OF f]
  note gm = wf_oh_more [OF g]
  have wsv: "wf_ff sv"
  proof -
    have "qt ! i < Q" if "i \<in> set (ff_table (ic_values sH))" for i
      using svb that by (intro qb) (simp add: list_all_iff)
    then show ?thesis
      by (simp add: wf_ff_def sv_def list_all_iff)
  qed
  have wtv: "wf_ff tv"
  proof -
    have "qt ! i < Q" if "i \<in> set (ff_table (ic_values tH))" for i
      using tvb that by (intro qb) (simp add: list_all_iff)
    then show ?thesis
      by (simp add: wf_ff_def tv_def list_all_iff)
  qed
  have ics: "wf_ic \<lparr>ic_sources = ic_sources sH, ic_values = sv\<rparr>"
    using wsv fm(1) gm(1) by (simp add: wf_ic_def sH_def sv_def ff_source_def)
  have ict: "wf_ic \<lparr>ic_sources = ic_sources tH, ic_values = tv\<rparr>"
    using wtv fm(2) gm(2) by (simp add: wf_ic_def tH_def tv_def ff_source_def)
  obtain mm where mm: "m = Some mm" "list_all (\<lambda>i. i < mm) lf" "list_all (\<lambda>i. i < mm) lg"
    using fm(5) gm(5) e(1) by (auto simp: m_def lf_def lg_def)
  have ww: "wf_ff w'"
  proof (cases "n = 0")
    case True
    then have "Q = 0"
      using rank_of_le [of rep n] by (simp add: Q_def)
    then show ?thesis
      using w'f by (simp add: wf_ff_def mm(1))
  next
    case False
    have lb: "\<forall>j<n. lab ! j < mm"
      using mm(2,3) by (auto simp: lab_def nth_append list_all_length n_def Wf_def Wg_def)
    then have "lab ! 0 < mm"
      using False by blast
    then have pos: "0 < mm"
      by simp
    have a1: "ff_source q = n"
      by (simp add: q_def ff_source_def ql)
    have "list_all (\<lambda>l. l < mm)
            (ff_table (quotient_labels q \<lparr>ff_target = m, ff_table = lab, ff_dtype = d\<rparr> Q))"
      using lb by (intro quotient_labels_bound [OF a1 _ pos]) simp
    then show ?thesis
      using w'f by (simp add: wf_ff_def mm(1) w'_def)
  qed
  have wx: "wf_ff xH \<and> ff_target xH \<noteq> None"
    using fm(6) gm(6) xs by (auto simp: wf_ff_def xH_def)
  have wH': "wf_hg H'"
    using ics ict ww wx fm(3,4) gm(3,4)
    by (simp add: wf_hg_def H'_def w'f mm(1) ic_len_def hg_X_def hg_W_def hg_dtype_def
        ic_dtype_def ff_source_def sH_def tH_def sv_def tv_def xH_def)
  have ws': "wf_ff s'"
  proof -
    have "qt ! i < Q" if "i \<in> set sf" for i
      using sfb [OF that] by (intro qb) (simp add: n_def)
    then show ?thesis
      by (simp add: wf_ff_def s'_def list_all_iff)
  qed
  have wt': "wf_ff t'"
  proof -
    have "qt ! (Wf + i) < Q" if "i \<in> set tg" for i
      using tgb [OF that] by (intro qb) (simp add: n_def)
    then show ?thesis
      by (simp add: wf_ff_def t'_def list_all_iff)
  qed
  have wfh: "wf_oh h"
    using wH' ws' wt'
    by (simp add: wf_oh_def h_def post_init_ok_def hg_dtype_def hg_W_def ff_source_def
        H'_def w'f s'_def t'_def)
  show ?thesis
    using res wfh sF tG srcH tgtH by blast
qed

text \<open>The modelled coequalizer equalizes the two functions: \<open>a >> q = b >> q\<close>.\<close>

lemma ff_coequalizer_equalizes:
  assumes "ff_dtype a = ff_dtype b" "length (ff_table a) = length (ff_table b)"
    "ff_target a = Some n" "ff_target b = Some n"
    "list_all (\<lambda>i. i < n) (ff_table a)" "list_all (\<lambda>i. i < n) (ff_table b)"
  shows "\<exists>q r. ff_coequalizer a b = Inr q \<and> ff_compose a q = Inr r \<and> ff_compose b q = Inr r"
proof -
  define ps where "ps = zip (ff_table a) (ff_table b)"
  define rep where "rep = class_reps n ps"
  define q where "q = \<lparr>ff_target = Some (rank_of rep n), ff_table = map (rank_of rep) rep,
                        ff_dtype = ff_dtype a\<rparr>"
  have co: "ff_coequalizer a b = Inr q"
    using ff_coequalizer_ok [OF assms] by (simp add: q_def rep_def ps_def)
  have pb: "\<forall>p\<in>set ps. fst p < n \<and> snd p < n"
    using assms(5,6) by (auto simp: ps_def list_all_iff dest: set_zip_leftD set_zip_rightD)
  have v: "valid_reps n rep"
    unfolding rep_def by (rule class_reps_valid [OF pb])
  then have l: "length rep = n"
    by (simp add: valid_reps_def)
  have j: "rep ! (ff_table a ! k) = rep ! (ff_table b ! k)" if k: "k < length (ff_table a)" for k
  proof -
    have "(ff_table a ! k, ff_table b ! k) \<in> set ps"
      using k assms(2) by (auto simp: ps_def in_set_zip)
    from class_reps_joins [OF pb this] show ?thesis
      by (simp add: rep_def)
  qed
  have ba: "ff_table a ! k < n" "ff_table b ! k < n" if "k < length (ff_table a)" for k
    using that assms(2,5,6) by (simp_all add: list_all_length)
  have t: "map ((!) (ff_table q)) (ff_table a) = map ((!) (ff_table q)) (ff_table b)"
  proof (rule nth_equalityI)
    show "length (map ((!) (ff_table q)) (ff_table a)) = length (map ((!) (ff_table q)) (ff_table b))"
      using assms(2) by simp
  next
    fix k assume "k < length (map ((!) (ff_table q)) (ff_table a))"
    then have k: "k < length (ff_table a)" by simp
    then have k': "k < length (ff_table b)" using assms(2) by simp
    show "map ((!) (ff_table q)) (ff_table a) ! k = map ((!) (ff_table q)) (ff_table b) ! k"
      using k k' ba [OF k] j [OF k] l by (simp add: q_def)
  qed
  have ca: "ff_compose a q = Inr \<lparr>ff_target = ff_target q,
              ff_table = map ((!) (ff_table q)) (ff_table a), ff_dtype = ff_dtype a\<rparr>"
    using assms l by (intro ff_compose_ok) (simp_all add: q_def)
  have cb: "ff_compose b q = Inr \<lparr>ff_target = ff_target q,
              ff_table = map ((!) (ff_table q)) (ff_table b), ff_dtype = ff_dtype b\<rparr>"
    using assms l by (intro ff_compose_ok) (simp_all add: q_def)
  show ?thesis
    using co ca cb t assms(1) by simp
qed

section \<open>Dagger, spiders and identities\<close>

text \<open>
  Claim C6. For every open hypergraph \<open>f\<close> (a value that passes the check of its
  constructor), \<open>f.dagger()\<close> is \<open>f\<close> with \<open>s\<close> and \<open>t\<close> swapped and \<open>H\<close> unchanged, and the
  dagger of the dagger is \<open>f\<close> again.
\<close>

theorem dagger_involution:
  assumes "post_init_ok f"
  shows "dagger f = Inr \<lparr>oh_s = oh_t f, oh_t = oh_s f, oh_H = oh_H f\<rparr> \<and>
         bindE (dagger f) dagger = Inr f"
  using assms
  by (simp add: dagger_def new_OpenHypergraph_def post_init_ok_def bindE_def)

theorem dagger_involution_witness:
  "post_init_ok ex_f \<and>
   dagger ex_f = Inr \<lparr>oh_s = oh_t ex_f, oh_t = oh_s ex_f, oh_H = oh_H ex_f\<rparr> \<and>
   bindE (dagger ex_f) dagger = Inr ex_f"
proof -
  have ok: "post_init_ok ex_f"
    by (simp add: post_init_ok_def ex_f_def ex_w_def ff_identity_def ff_twist_def
        hg_dtype_def hg_discrete_def)
  show ?thesis
    by (rule conjI [OF ok dagger_involution [OF ok]])
qed

text \<open>\<open>half_spider\<close> is the call of \<open>spider\<close> that the source writes: the identity has the
  default dtype whatever the dtype of the call, so for an \<open>s\<close> of another dtype the
  constructor refuses the result.\<close>

lemma half_spider_is_spider:
  "half_spider DTYPE s w x dtype = spider s (ff_identity (ff_source w) DTYPE) w x dtype"
  by (simp add: half_spider_def spider_def Let_def split: option.splits)

lemma half_spider_other_dtype:
  "ff_dtype s \<noteq> DTYPE \<Longrightarrow> half_spider DTYPE s w x dtype = Inl DtypeMismatch"
  by (simp add: half_spider_def spider_def new_OpenHypergraph_def Let_def ff_identity_def)

text \<open>
  Claim C7. \<open>half_spider\<close> is meant to be \<open>spider\<close> with \<open>t\<close> the identity on \<open>len(w)\<close>, for
  every dtype. The code does not do this for a dtype other than the default: with the
  default \<open>32\<close> and \<open>s\<close>, \<open>w\<close>, \<open>x\<close> of dtype \<open>64\<close>, \<open>half_spider\<close> fails in the constructor,
  with the dtype given and with it left out, while \<open>spider\<close> with the identity on \<open>len(w)\<close>
  in dtype \<open>64\<close> returns an open hypergraph.
\<close>

theorem half_spider_drops_dtype:
  "half_spider 32 ex_s64 ex_w64 ex_x64 (Some 64) = Inl DtypeMismatch \<and>
   half_spider 32 ex_s64 ex_w64 ex_x64 None = Inl DtypeMismatch \<and>
   spider ex_s64 (ff_identity (ff_source ex_w64) 64) ex_w64 ex_x64 (Some 64) =
     Inr \<lparr>oh_s = ex_s64, oh_t = ff_identity (ff_source ex_w64) 64,
          oh_H = hg_discrete ex_w64 ex_x64 64\<rparr>"
  by (simp add: half_spider_def spider_def new_OpenHypergraph_def Let_def ff_identity_def
      hg_dtype_def hg_discrete_def ex_s64_def ex_w64_def ex_x64_def)

text \<open>
  Claim C10. \<open>identity(w, x, dtype)\<close> fails whenever \<open>x.source\<close> is not \<open>0\<close>; when it is
  \<open>0\<close> (and \<open>w\<close> has the dtype of the call) the result has the identity on \<open>len(w)\<close> as
  both interfaces, over the discrete hypergraph on the wires \<open>w\<close>.
\<close>

theorem identity_spec:
  "(ff_source x \<noteq> 0 \<longrightarrow> identity w x dtype = Inl InvalidArgument) \<and>
   (ff_source x = 0 \<and> ff_dtype w = dtype \<longrightarrow>
      identity w x dtype =
        Inr \<lparr>oh_s = ff_identity (ff_source w) dtype, oh_t = ff_identity (ff_source w) dtype,
             oh_H = hg_discrete w x dtype\<rparr>)"
  by (simp add: identity_def new_OpenHypergraph_def Let_def ff_identity_def hg_dtype_def
      hg_discrete_def)

theorem identity_spec_witness:
  "identity ex_w ex_x1 32 = Inl InvalidArgument \<and>
   identity ex_w ex_x0 32 =
     Inr \<lparr>oh_s = ff_identity (ff_source ex_w) 32, oh_t = ff_identity (ff_source ex_w) 32,
          oh_H = hg_discrete ex_w ex_x0 32\<rparr>"
proof -
  have h1: "ff_source ex_x1 \<noteq> 0"
    by (simp add: ff_source_def ex_x1_def)
  have h0: "ff_source ex_x0 = 0 \<and> ff_dtype ex_w = 32"
    by (simp add: ff_source_def ex_x0_def ex_w_def)
  from identity_spec [of ex_x1 ex_w 32] h1
  have a: "identity ex_w ex_x1 32 = Inl InvalidArgument"
    by blast
  from identity_spec [of ex_x0 ex_w 32] h0
  have b: "identity ex_w ex_x0 32 =
     Inr \<lparr>oh_s = ff_identity (ff_source ex_w) 32, oh_t = ff_identity (ff_source ex_w) 32,
          oh_H = hg_discrete ex_w ex_x0 32\<rparr>"
    by blast
  show ?thesis
    by (rule conjI [OF a b])
qed

section \<open>Twist, singleton and tensor\<close>

text \<open>
  Claim C8. \<open>twist(a, b, x, dtype)\<close> fails with \<open>InvalidArgument\<close> whenever \<open>len(x)\<close> is
  not \<open>0\<close>. When it is \<open>0\<close> (for type sequences \<open>a\<close>, \<open>b\<close> over one alphabet, with the
  dtype of the call) the result has no hyperedges, its source type sequence is \<open>a ++ b\<close>
  and its target type sequence is \<open>b ++ a\<close>.
\<close>

theorem twist_spec:
  "(ff_source x \<noteq> 0 \<longrightarrow> twist a b x dtype = Inl InvalidArgument) \<and>
   (ff_source x = 0 \<and> ff_dtype a = dtype \<and> ff_dtype b = dtype \<and> ff_target a = ff_target b \<longrightarrow>
      (\<exists>h. twist a b x dtype = Inr h \<and>
           oh_s h = ff_twist (ff_source a) (ff_source b) dtype \<and>
           oh_t h = ff_identity (ff_source a + ff_source b) dtype \<and>
           hg_X (oh_H h) = 0 \<and> ic_len (hg_s (oh_H h)) = 0 \<and> ic_len (hg_t (oh_H h)) = 0 \<and>
           source h = Inr \<lparr>ff_target = ff_target a, ff_table = ff_table a @ ff_table b,
                            ff_dtype = dtype\<rparr> \<and>
           target h = Inr \<lparr>ff_target = ff_target a, ff_table = ff_table b @ ff_table a,
                            ff_dtype = dtype\<rparr>))"
proof (intro conjI impI)
  assume "ff_source x \<noteq> 0"
  then show "twist a b x dtype = Inl InvalidArgument"
    by (simp add: twist_def)
next
  assume h: "ff_source x = 0 \<and> ff_dtype a = dtype \<and> ff_dtype b = dtype \<and> ff_target a = ff_target b"
  let ?ba = "\<lparr>ff_target = ff_target b, ff_table = ff_table b @ ff_table a, ff_dtype = dtype\<rparr>"
  let ?h = "\<lparr>oh_s = ff_twist (ff_source a) (ff_source b) dtype,
             oh_t = ff_identity (ff_source a + ff_source b) dtype,
             oh_H = hg_discrete ?ba x dtype\<rparr>"
  have co: "ff_coproduct b a = Inr ?ba"
    using h by (simp add: ff_coproduct_def)
  have tw: "twist a b x dtype = Inr ?h"
    using h by (simp add: twist_def co bindE_def new_OpenHypergraph_def Let_def
        ff_twist_def ff_identity_def hg_dtype_def hg_discrete_def)
  have t1: "map ((!) (ff_table b @ ff_table a))
              (map (\<lambda>i. length (ff_table b) + i) [0..<length (ff_table a)] @
               [0..<length (ff_table b)]) = ff_table a @ ff_table b"
    by (simp only: map_append map_nth_append_left map_nth_append_right)
  have t2: "list_all (\<lambda>i. i < length (ff_table b @ ff_table a))
              (map (\<lambda>i. length (ff_table b) + i) [0..<length (ff_table a)] @
               [0..<length (ff_table b)])"
    by (auto simp: list_all_iff)
  have src: "source ?h = Inr \<lparr>ff_target = ff_target a, ff_table = ff_table a @ ff_table b,
                            ff_dtype = dtype\<rparr>"
    using h t2 by (simp add: source_def ff_compose_def ff_twist_def hg_discrete_def ff_source_def
        t1 del: map_append map_map list_all_append)
  have tgt: "target ?h = Inr \<lparr>ff_target = ff_target a, ff_table = ff_table b @ ff_table a,
                            ff_dtype = dtype\<rparr>"
    using h map_nth [of "ff_table b @ ff_table a"]
    by (simp add: target_def ff_compose_def ff_identity_def hg_discrete_def ff_source_def
        list_all_iff add.commute)
  have ne: "hg_X (oh_H ?h) = 0 \<and> ic_len (hg_s (oh_H ?h)) = 0 \<and> ic_len (hg_t (oh_H ?h)) = 0"
    using h by (simp add: hg_X_def ic_len_def hg_discrete_def ic_initial_def ff_source_def)
  show "\<exists>h. twist a b x dtype = Inr h \<and>
           oh_s h = ff_twist (ff_source a) (ff_source b) dtype \<and>
           oh_t h = ff_identity (ff_source a + ff_source b) dtype \<and>
           hg_X (oh_H h) = 0 \<and> ic_len (hg_s (oh_H h)) = 0 \<and> ic_len (hg_t (oh_H h)) = 0 \<and>
           source h = Inr \<lparr>ff_target = ff_target a, ff_table = ff_table a @ ff_table b,
                            ff_dtype = dtype\<rparr> \<and>
           target h = Inr \<lparr>ff_target = ff_target a, ff_table = ff_table b @ ff_table a,
                            ff_dtype = dtype\<rparr>"
    using tw src tgt ne by (intro exI [of _ ?h]) simp
qed

theorem twist_spec_witness:
  "twist ex_a ex_b ex_x1 32 = Inl InvalidArgument \<and>
   (\<exists>h. twist ex_a ex_b ex_x0 32 = Inr h \<and>
        oh_s h = ff_twist (ff_source ex_a) (ff_source ex_b) 32 \<and>
        oh_t h = ff_identity (ff_source ex_a + ff_source ex_b) 32 \<and>
        hg_X (oh_H h) = 0 \<and> ic_len (hg_s (oh_H h)) = 0 \<and> ic_len (hg_t (oh_H h)) = 0 \<and>
        source h = Inr \<lparr>ff_target = ff_target ex_a, ff_table = ff_table ex_a @ ff_table ex_b,
                         ff_dtype = 32\<rparr> \<and>
        target h = Inr \<lparr>ff_target = ff_target ex_a, ff_table = ff_table ex_b @ ff_table ex_a,
                         ff_dtype = 32\<rparr>)"
proof -
  have h1: "ff_source ex_x1 \<noteq> 0"
    by (simp add: ff_source_def ex_x1_def)
  have h0: "ff_source ex_x0 = 0 \<and> ff_dtype ex_a = 32 \<and> ff_dtype ex_b = 32 \<and>
            ff_target ex_a = ff_target ex_b"
    by (simp add: ff_source_def ex_x0_def ex_a_def ex_b_def)
  from twist_spec [of ex_x1 ex_a ex_b 32] h1
  have a: "twist ex_a ex_b ex_x1 32 = Inl InvalidArgument"
    by blast
  from twist_spec [of ex_x0 ex_a ex_b 32] h0 a show ?thesis
    by blast
qed



text \<open>
  Claim C3. For open hypergraphs \<open>f\<close> and \<open>g\<close> of one signature and dtype the tensor
  \<open>f @ g\<close> succeeds, with \<open>(f @ g).s = f.s \<oplus> g.s\<close>, \<open>(f @ g).t = f.t \<oplus> g.t\<close> and
  \<open>(f @ g).H = f.H + g.H\<close>. No wires are identified: the interfaces of \<open>g\<close> are shifted
  past the wires of \<open>f\<close>, and the wires and the hyperedges of the result are those of \<open>f\<close>
  followed by those of \<open>g\<close>.
\<close>

theorem tensor_spec:
  assumes "wf_oh f" "wf_oh g" "same_signature f g"
  shows "\<exists>h. tensor f g = Inr h \<and>
     ff_tensor (oh_s f) (oh_s g) = Inr (oh_s h) \<and>
     ff_tensor (oh_t f) (oh_t g) = Inr (oh_t h) \<and>
     hg_coproduct (oh_H f) (oh_H g) = Inr (oh_H h) \<and>
     ff_table (oh_s h) = ff_table (oh_s f) @ map (\<lambda>i. hg_W (oh_H f) + i) (ff_table (oh_s g)) \<and>
     ff_table (oh_t h) = ff_table (oh_t f) @ map (\<lambda>i. hg_W (oh_H f) + i) (ff_table (oh_t g)) \<and>
     ff_table (hg_w (oh_H h)) = ff_table (hg_w (oh_H f)) @ ff_table (hg_w (oh_H g)) \<and>
     ff_table (hg_x (oh_H h)) = ff_table (hg_x (oh_H f)) @ ff_table (hg_x (oh_H g)) \<and>
     hg_W (oh_H h) = hg_W (oh_H f) + hg_W (oh_H g) \<and>
     hg_X (oh_H h) = hg_X (oh_H f) + hg_X (oh_H g)"
proof -
  note d = same_signature_dtype [OF assms]
  have s: "ff_tensor (oh_s f) (oh_s g) =
      Inr \<lparr>ff_target = Some (hg_W (oh_H f) + hg_W (oh_H g)),
           ff_table = ff_table (oh_s f) @ map (\<lambda>i. hg_W (oh_H f) + i) (ff_table (oh_s g)),
           ff_dtype = ff_dtype (oh_s f)\<rparr>"
    using assms by (intro ff_tensor_ok) (simp_all add: wf_oh_def same_signature_def)
  have t: "ff_tensor (oh_t f) (oh_t g) =
      Inr \<lparr>ff_target = Some (hg_W (oh_H f) + hg_W (oh_H g)),
           ff_table = ff_table (oh_t f) @ map (\<lambda>i. hg_W (oh_H f) + i) (ff_table (oh_t g)),
           ff_dtype = ff_dtype (oh_t f)\<rparr>"
    using assms d by (intro ff_tensor_ok) (simp_all add: wf_oh_def)
  obtain H where H: "hg_coproduct (oh_H f) (oh_H g) = Inr H"
    and Hw: "hg_w H = \<lparr>ff_target = ff_target (hg_w (oh_H f)),
                       ff_table = ff_table (hg_w (oh_H f)) @ ff_table (hg_w (oh_H g)),
                       ff_dtype = hg_dtype (oh_H f)\<rparr>"
    and Hx: "hg_x H = \<lparr>ff_target = ff_target (hg_x (oh_H f)),
                       ff_table = ff_table (hg_x (oh_H f)) @ ff_table (hg_x (oh_H g)),
                       ff_dtype = hg_dtype (oh_H f)\<rparr>"
    using assms d hg_coproduct_ok [of "oh_H f" "oh_H g"]
    by (simp add: wf_oh_def same_signature_def)
  let ?h = "\<lparr>oh_s = \<lparr>ff_target = Some (hg_W (oh_H f) + hg_W (oh_H g)),
           ff_table = ff_table (oh_s f) @ map (\<lambda>i. hg_W (oh_H f) + i) (ff_table (oh_s g)),
           ff_dtype = ff_dtype (oh_s f)\<rparr>,
         oh_t = \<lparr>ff_target = Some (hg_W (oh_H f) + hg_W (oh_H g)),
           ff_table = ff_table (oh_t f) @ map (\<lambda>i. hg_W (oh_H f) + i) (ff_table (oh_t g)),
           ff_dtype = ff_dtype (oh_t f)\<rparr>,
         oh_H = H\<rparr>"
  have tn: "tensor f g = Inr ?h"
    using d by (simp add: tensor_def s t H bindE_def new_OpenHypergraph_def hg_dtype_def Hw)
  have sz: "hg_W H = hg_W (oh_H f) + hg_W (oh_H g) \<and> hg_X H = hg_X (oh_H f) + hg_X (oh_H g)"
    by (simp add: hg_W_def hg_X_def Hw Hx ff_source_def)
  show ?thesis
    using tn s t H sz by (intro exI [of _ ?h]) (simp add: Hw Hx)
qed

theorem tensor_spec_witness:
  "wf_oh ex_f \<and> wf_oh ex_g \<and> same_signature ex_f ex_g \<and>
   (\<exists>h. tensor ex_f ex_g = Inr h \<and>
     ff_tensor (oh_s ex_f) (oh_s ex_g) = Inr (oh_s h) \<and>
     ff_tensor (oh_t ex_f) (oh_t ex_g) = Inr (oh_t h) \<and>
     hg_coproduct (oh_H ex_f) (oh_H ex_g) = Inr (oh_H h) \<and>
     ff_table (oh_s h) = ff_table (oh_s ex_f) @ map (\<lambda>i. hg_W (oh_H ex_f) + i) (ff_table (oh_s ex_g)) \<and>
     ff_table (oh_t h) = ff_table (oh_t ex_f) @ map (\<lambda>i. hg_W (oh_H ex_f) + i) (ff_table (oh_t ex_g)) \<and>
     ff_table (hg_w (oh_H h)) = ff_table (hg_w (oh_H ex_f)) @ ff_table (hg_w (oh_H ex_g)) \<and>
     ff_table (hg_x (oh_H h)) = ff_table (hg_x (oh_H ex_f)) @ ff_table (hg_x (oh_H ex_g)) \<and>
     hg_W (oh_H h) = hg_W (oh_H ex_f) + hg_W (oh_H ex_g) \<and>
     hg_X (oh_H h) = hg_X (oh_H ex_f) + hg_X (oh_H ex_g))"
proof -
  have f: "wf_oh ex_f"
    by code_simp
  have g: "wf_oh ex_g"
    by code_simp
  have fg: "same_signature ex_f ex_g"
    by code_simp
  from tensor_spec [OF f g fg] f g fg show ?thesis
    by blast
qed

section \<open>Interleaving and the object map of the optic\<close>

text \<open>
  Claim C4. \<open>interleave_blocks(A, B, x)\<close> fails with \<open>LengthMismatch\<close> when
  \<open>len(A) \<noteq> len(B)\<close>. When the lengths agree (zero included; \<open>A\<close> and \<open>B\<close> well-formed,
  over one alphabet and dtype, \<open>x\<close> the empty labelling of operations) the result is a pure
  spider: it is built over the discrete hypergraph on the wires \<open>A ++ B\<close> and has no
  hyperedges, the source type sequence is the
  concatenation of the values of \<open>A\<close> and \<open>B\<close>, and the target type sequence is the
  interleaving \<open>(A\<^sub>0 + B\<^sub>0) + (A\<^sub>1 + B\<^sub>1) + ...\<close> of their blocks.
\<close>

theorem interleave_blocks_spec:
  "(ic_len A \<noteq> ic_len B \<longrightarrow> interleave_blocks A B x = Inl LengthMismatch) \<and>
   (ic_len A = ic_len B \<and> ff_source x = 0 \<and> wf_ic A \<and> wf_ic B \<and>
    ic_dtype A = ic_dtype B \<and> ff_target (ic_values A) = ff_target (ic_values B) \<longrightarrow>
      (\<exists>h. interleave_blocks A B x = Inr h \<and>
           oh_H h = hg_discrete \<lparr>ff_target = ff_target (ic_values A),
                                  ff_table = ff_table (ic_values A) @ ff_table (ic_values B),
                                  ff_dtype = ic_dtype A\<rparr> x (ic_dtype A) \<and>
           hg_X (oh_H h) = 0 \<and>
           ic_blocks (hg_s (oh_H h)) = [] \<and> ic_blocks (hg_t (oh_H h)) = [] \<and>
           source h = Inr \<lparr>ff_target = ff_target (ic_values A),
                            ff_table = ff_table (ic_values A) @ ff_table (ic_values B),
                            ff_dtype = ic_dtype A\<rparr> \<and>
           target h = Inr \<lparr>ff_target = ff_target (ic_values A),
                            ff_table = concat (map2 (@) (ic_blocks A) (ic_blocks B)),
                            ff_dtype = ic_dtype A\<rparr>))"
proof (intro conjI impI)
  assume "ic_len A \<noteq> ic_len B"
  then show "interleave_blocks A B x = Inl LengthMismatch"
    by (simp add: interleave_blocks_def)
next
  assume h: "ic_len A = ic_len B \<and> ff_source x = 0 \<and> wf_ic A \<and> wf_ic B \<and>
    ic_dtype A = ic_dtype B \<and> ff_target (ic_values A) = ff_target (ic_values B)"
  define sA where "sA = ff_table (ic_sources A)"
  define sB where "sB = ff_table (ic_sources B)"
  define vA where "vA = ff_table (ic_values A)"
  define vB where "vB = ff_table (ic_values B)"
  define N where "N = ic_len A"
  define d where "d = ic_dtype A"
  define tg where "tg = ff_target (ic_values A)"
  define w where "w = \<lparr>ff_target = tg, ff_table = vA @ vB, ff_dtype = d\<rparr>"
  define s where "s = ff_identity (length (vA @ vB)) d"
  define t where "t = \<lparr>ff_target = Some (sum_list (sA @ sB)),
              ff_table = concat (map (block_range (sA @ sB)) (ff_table (ff_transpose 2 N d))),
              ff_dtype = d\<rparr>"
  define r where "r = \<lparr>oh_s = s, oh_t = t, oh_H = hg_discrete w x d\<rparr>"
  have len: "length sA = N" "length sB = N"
    using h by (simp_all add: sA_def sB_def N_def ic_len_def ff_source_def)
  have sums: "sum_list sA = length vA" "sum_list sB = length vB"
    using h by (simp_all add: sA_def sB_def vA_def vB_def wf_ic_def ff_source_def)
  have co: "ic_coproduct A B =
      Inr \<lparr>ic_sources = \<lparr>ff_target = None, ff_table = sA @ sB, ff_dtype = d\<rparr>, ic_values = w\<rparr>"
    using h ic_coproduct_ok [of A B]
    by (simp add: sA_def sB_def vA_def vB_def d_def tg_def w_def)
  have inj: "ff_injections \<lparr>ff_target = None, ff_table = sA @ sB, ff_dtype = d\<rparr>
               (ff_transpose 2 N d) = Inr t"
    unfolding t_def by (rule ff_injections_transpose [OF len])
  have sp: "spider s t w x None = Inr r"
    by (simp add: spider_def new_OpenHypergraph_def r_def s_def t_def w_def ff_identity_def
        hg_dtype_def hg_discrete_def)
  have NA: "ic_len A = N" and NB: "ic_len B = N"
    using h by (simp_all add: N_def)
  have wd: "ic_dtype \<lparr>ic_sources = \<lparr>ff_target = None, ff_table = sA @ sB, ff_dtype = d\<rparr>,
                      ic_values = w\<rparr> = d"
    by (simp add: ic_dtype_def w_def)
  have ws: "ff_source w = length (vA @ vB)"
    by (simp add: ff_source_def w_def)
  have res: "interleave_blocks A B x = Inr r"
    by (simp add: interleave_blocks_def NA NB co bindE_def Let_def wd ws inj sp
        s_def [symmetric] del: length_append)
  have src: "source r = Inr w"
    using map_nth [of "vA @ vB"]
    by (simp add: source_def r_def s_def w_def ff_compose_def ff_identity_def hg_discrete_def
        ff_source_def list_all_iff del: map_append)
  have tb: "list_all (\<lambda>i. i < length (vA @ vB))
             (concat (map (block_range (sA @ sB)) (ff_table (ff_transpose 2 N d))))"
    using interleave_bound [OF len, of d] sums by simp
  have tv: "map ((!) (vA @ vB))
             (concat (map (block_range (sA @ sB)) (ff_table (ff_transpose 2 N d)))) =
            concat (map2 (@) (ic_blocks A) (ic_blocks B))"
    using interleave_values [OF len sums, of d]
    by (simp only: ic_blocks_def sA_def sB_def vA_def vB_def)
  have tgt: "target r = Inr \<lparr>ff_target = tg,
                            ff_table = concat (map2 (@) (ic_blocks A) (ic_blocks B)),
                            ff_dtype = d\<rparr>"
    using tb sums
    by (simp add: target_def r_def t_def w_def ff_compose_def hg_discrete_def
        ff_source_def tv del: map_append list_all_append)
  have bl: "hg_X (oh_H r) = 0 \<and>
            ic_blocks (hg_s (oh_H r)) = [] \<and> ic_blocks (hg_t (oh_H r)) = []"
    using h by (simp add: r_def hg_discrete_def hg_X_def ic_blocks_def ic_initial_def)
  show "\<exists>h. interleave_blocks A B x = Inr h \<and>
           oh_H h = hg_discrete \<lparr>ff_target = ff_target (ic_values A),
                                  ff_table = ff_table (ic_values A) @ ff_table (ic_values B),
                                  ff_dtype = ic_dtype A\<rparr> x (ic_dtype A) \<and>
           hg_X (oh_H h) = 0 \<and>
           ic_blocks (hg_s (oh_H h)) = [] \<and> ic_blocks (hg_t (oh_H h)) = [] \<and>
           source h = Inr \<lparr>ff_target = ff_target (ic_values A),
                            ff_table = ff_table (ic_values A) @ ff_table (ic_values B),
                            ff_dtype = ic_dtype A\<rparr> \<and>
           target h = Inr \<lparr>ff_target = ff_target (ic_values A),
                            ff_table = concat (map2 (@) (ic_blocks A) (ic_blocks B)),
                            ff_dtype = ic_dtype A\<rparr>"
    using res src tgt bl
    by (intro exI [of _ r]) (simp add: w_def tg_def d_def vA_def vB_def r_def)
qed

theorem interleave_blocks_spec_witness:
  "interleave_blocks ex_A ex_C ex_x0 = Inl LengthMismatch \<and>
   (\<exists>h. interleave_blocks ex_A ex_B ex_x0 = Inr h \<and>
        hg_X (oh_H h) = 0 \<and>
           ic_blocks (hg_s (oh_H h)) = [] \<and> ic_blocks (hg_t (oh_H h)) = [] \<and>
        source h = Inr \<lparr>ff_target = Some 3, ff_table = [0, 1, 2, 2, 2], ff_dtype = 32\<rparr> \<and>
        target h = Inr \<lparr>ff_target = Some 3, ff_table = [0, 2, 2, 1, 2], ff_dtype = 32\<rparr>) \<and>
   (\<exists>h. interleave_blocks (ic_initial 3 32) (ic_initial 3 32) ex_x0 = Inr h \<and>
        hg_X (oh_H h) = 0 \<and>
           ic_blocks (hg_s (oh_H h)) = [] \<and> ic_blocks (hg_t (oh_H h)) = [] \<and>
        source h = Inr \<lparr>ff_target = Some 3, ff_table = [], ff_dtype = 32\<rparr> \<and>
        target h = Inr \<lparr>ff_target = Some 3, ff_table = [], ff_dtype = 32\<rparr>)"
proof -
  have h1: "ic_len ex_A \<noteq> ic_len ex_C"
    by code_simp
  have h0: "ic_len ex_A = ic_len ex_B \<and> ff_source ex_x0 = 0 \<and> wf_ic ex_A \<and> wf_ic ex_B \<and>
            ic_dtype ex_A = ic_dtype ex_B \<and>
            ff_target (ic_values ex_A) = ff_target (ic_values ex_B)"
    by code_simp
  have hz: "ic_len (ic_initial 3 32) = ic_len (ic_initial 3 32) \<and> ff_source ex_x0 = 0 \<and>
            wf_ic (ic_initial 3 32) \<and>
            wf_ic (ic_initial 3 32) \<and> ic_dtype (ic_initial 3 32) = ic_dtype (ic_initial 3 32) \<and>
            ff_target (ic_values (ic_initial 3 32)) = ff_target (ic_values (ic_initial 3 32))"
    by code_simp
  have e1: "ff_target (ic_values ex_A) = Some 3" "ic_dtype ex_A = 32"
    "ff_table (ic_values ex_A) @ ff_table (ic_values ex_B) = [0, 1, 2, 2, 2]"
    "concat (map2 (@) (ic_blocks ex_A) (ic_blocks ex_B)) = [0, 2, 2, 1, 2]"
    by code_simp+
  have e0: "ff_target (ic_values (ic_initial 3 32)) = Some 3" "ic_dtype (ic_initial 3 32) = 32"
    "ff_table (ic_values (ic_initial 3 32)) @ ff_table (ic_values (ic_initial 3 32)) = []"
    "concat (map2 (@) (ic_blocks (ic_initial 3 32)) (ic_blocks (ic_initial 3 32))) = []"
    by code_simp+
  from interleave_blocks_spec [of ex_A ex_C ex_x0] h1
  have a: "interleave_blocks ex_A ex_C ex_x0 = Inl LengthMismatch"
    by blast
  from interleave_blocks_spec [of ex_A ex_B ex_x0] h0
  have b: "\<exists>h. interleave_blocks ex_A ex_B ex_x0 = Inr h \<and>
        hg_X (oh_H h) = 0 \<and>
           ic_blocks (hg_s (oh_H h)) = [] \<and> ic_blocks (hg_t (oh_H h)) = [] \<and>
        source h = Inr \<lparr>ff_target = Some 3, ff_table = [0, 1, 2, 2, 2], ff_dtype = 32\<rparr> \<and>
        target h = Inr \<lparr>ff_target = Some 3, ff_table = [0, 2, 2, 1, 2], ff_dtype = 32\<rparr>"
    unfolding e1 by blast
  from interleave_blocks_spec [of "ic_initial 3 32" "ic_initial 3 32" ex_x0] hz
  have c: "\<exists>h. interleave_blocks (ic_initial 3 32) (ic_initial 3 32) ex_x0 = Inr h \<and>
        hg_X (oh_H h) = 0 \<and>
           ic_blocks (hg_s (oh_H h)) = [] \<and> ic_blocks (hg_t (oh_H h)) = [] \<and>
        source h = Inr \<lparr>ff_target = Some 3, ff_table = [], ff_dtype = 32\<rparr> \<and>
        target h = Inr \<lparr>ff_target = Some 3, ff_table = [], ff_dtype = 32\<rparr>"
    unfolding e0 by blast
  from a b c show ?thesis
    by blast
qed

text \<open>
  Claim C5. When the forward and the reverse functor agree on the number of blocks for
  \<open>A\<close> (their images well-formed, over one alphabet, with the dtype of the call), the
  object map of the optic has as many blocks as \<open>F(A)\<close>, its total size is
  \<open>|F(A)| + |R(A)|\<close>, and its \<open>i\<close>-th block is \<open>F(A\<^sub>i)\<close> followed by \<open>R(A\<^sub>i)\<close>. When they
  disagree the assertion fails.
\<close>

theorem map_objects_spec:
  "(ic_len (F A dtype) \<noteq> ic_len (R A dtype) \<longrightarrow>
      map_objects F R A dtype = Inl StructuralMismatch) \<and>
   (ic_len (F A dtype) = ic_len (R A dtype) \<and> wf_ic (F A dtype) \<and> wf_ic (R A dtype) \<and>
    ic_dtype (F A dtype) = dtype \<and> ic_dtype (R A dtype) = dtype \<and>
    ff_target (ic_values (F A dtype)) = ff_target (ic_values (R A dtype)) \<longrightarrow>
      (\<exists>m. map_objects F R A dtype = Inr m \<and>
           ic_len m = ic_len (F A dtype) \<and>
           ff_source (ic_values m) =
             ff_source (ic_values (F A dtype)) + ff_source (ic_values (R A dtype)) \<and>
           ic_blocks m = map2 (@) (ic_blocks (F A dtype)) (ic_blocks (R A dtype))))"
proof (intro conjI impI)
  assume "ic_len (F A dtype) \<noteq> ic_len (R A dtype)"
  then show "map_objects F R A dtype = Inl StructuralMismatch"
    by (simp add: map_objects_def Let_def)
next
  define FA where "FA = F A dtype"
  define RA where "RA = R A dtype"
  assume "ic_len (F A dtype) = ic_len (R A dtype) \<and> wf_ic (F A dtype) \<and> wf_ic (R A dtype) \<and>
    ic_dtype (F A dtype) = dtype \<and> ic_dtype (R A dtype) = dtype \<and>
    ff_target (ic_values (F A dtype)) = ff_target (ic_values (R A dtype))"
  then have h: "ic_len FA = ic_len RA" "wf_ic FA" "wf_ic RA" "ic_dtype FA = dtype"
    "ic_dtype RA = dtype" "ff_target (ic_values FA) = ff_target (ic_values RA)"
    by (simp_all add: FA_def RA_def)
  define sA where "sA = ff_table (ic_sources FA)"
  define sB where "sB = ff_table (ic_sources RA)"
  define vA where "vA = ff_table (ic_values FA)"
  define vB where "vB = ff_table (ic_values RA)"
  define N where "N = ic_len FA"
  define tg where "tg = ff_target (ic_values FA)"
  define srcs where "srcs = \<lparr>ff_target = None, ff_table = sA @ sB, ff_dtype = dtype\<rparr>"
  define w where "w = \<lparr>ff_target = tg, ff_table = vA @ vB, ff_dtype = dtype\<rparr>"
  define p where "p = ff_transpose 2 N dtype"
  define inj where "inj = \<lparr>ff_target = Some (sum_list (sA @ sB)),
              ff_table = concat (map (block_range (sA @ sB)) (ff_table p)),
              ff_dtype = dtype\<rparr>"
  define vals where "vals = \<lparr>ff_target = tg,
              ff_table = concat (map2 (@) (ic_blocks FA) (ic_blocks RA)), ff_dtype = dtype\<rparr>"
  define m where "m = \<lparr>ic_sources = \<lparr>ff_target = None, ff_table = map2 (+) sA sB,
                                      ff_dtype = dtype\<rparr>,
                        ic_values = vals\<rparr>"
  have NA: "ic_len FA = N" and NB: "ic_len RA = N"
    using h by (simp_all add: N_def)
  have len: "length sA = N" "length sB = N"
    using NA NB by (simp_all add: sA_def sB_def ic_len_def ff_source_def)
  have sums: "sum_list sA = length vA" "sum_list sB = length vB"
    using h by (simp_all add: sA_def sB_def vA_def vB_def wf_ic_def ff_source_def)
  have co: "ic_coproduct FA RA = Inr \<lparr>ic_sources = srcs, ic_values = w\<rparr>"
    using h ic_coproduct_ok [of FA RA]
    by (simp add: sA_def sB_def vA_def vB_def tg_def w_def srcs_def)
  have pb: "list_all (\<lambda>j. j < length (sA @ sB)) (ff_table p)"
    using transpose_2_bound [of N dtype] len by (simp add: p_def mult_2)
  have c1: "\<exists>q. ff_compose p srcs = Inr q"
    using pb len by (simp add: ff_compose_def p_def srcs_def ff_transpose_def ff_source_def)
  have c2: "ff_injections srcs p = Inr inj"
    unfolding srcs_def p_def inj_def by (rule ff_injections_transpose [OF len])
  have tb: "list_all (\<lambda>i. i < length (vA @ vB))
             (concat (map (block_range (sA @ sB)) (ff_table p)))"
    using interleave_bound [OF len, of dtype] sums by (simp add: p_def)
  have tv: "map ((!) (vA @ vB)) (concat (map (block_range (sA @ sB)) (ff_table p))) =
            concat (map2 (@) (ic_blocks FA) (ic_blocks RA))"
    using interleave_values [OF len sums, of dtype]
    by (simp only: ic_blocks_def sA_def sB_def vA_def vB_def p_def)
  have c3: "ff_compose inj w = Inr vals"
    using tb sums
    by (simp add: ff_compose_def inj_def w_def vals_def ff_source_def tv
        del: map_append list_all_append)
  obtain q where q: "ff_compose p srcs = Inr q"
    using c1 by blast
  have mi: "ic_map_indexes \<lparr>ic_sources = srcs, ic_values = w\<rparr> p =
            Inr \<lparr>ic_sources = q, ic_values = vals\<rparr>"
    by (simp add: ic_map_indexes_def q c2 c3 bindE_def)
  have res: "map_objects F R A dtype = Inr m"
    by (simp add: map_objects_def Let_def FA_def [symmetric] RA_def [symmetric] NA NB co
        bindE_def p_def [symmetric] mi m_def sA_def sB_def)
  have l1: "ic_len m = N"
    using len by (simp add: m_def ic_len_def ff_source_def)
  have bA: "map length (ic_blocks FA) = sA" and bB: "map length (ic_blocks RA) = sB"
    using sums by (simp_all add: ic_blocks_def sA_def sB_def vA_def vB_def map_length_split_blocks)
  have l3: "ic_blocks m = map2 (@) (ic_blocks FA) (ic_blocks RA)"
  proof -
    have e: "map2 (+) sA sB = map length (map2 (@) (ic_blocks FA) (ic_blocks RA))"
      by (simp only: map_length_map2_append bA bB)
    have "ic_blocks m = split_blocks (map2 (+) sA sB)
                          (concat (map2 (@) (ic_blocks FA) (ic_blocks RA)))"
      by (simp add: m_def vals_def ic_blocks_def [of "\<lparr>ic_sources = _, ic_values = _\<rparr>"])
    also have "\<dots> = map2 (@) (ic_blocks FA) (ic_blocks RA)"
      unfolding e by (rule split_blocks_concat)
    finally show ?thesis .
  qed
  have cA: "concat (ic_blocks FA) = vA" and cB: "concat (ic_blocks RA) = vB"
    using sums by (simp_all add: ic_blocks_def sA_def sB_def vA_def vB_def concat_split_blocks)
  have "length (ic_blocks FA) = length (ic_blocks RA)"
    using len by (simp add: ic_blocks_def length_split_blocks sA_def sB_def)
  from length_concat_map2_append [OF this]
  have l2: "ff_source (ic_values m) = ff_source (ic_values FA) + ff_source (ic_values RA)"
    by (simp add: m_def vals_def ff_source_def cA cB vA_def vB_def)
  show "\<exists>m. map_objects F R A dtype = Inr m \<and>
           ic_len m = ic_len (F A dtype) \<and>
           ff_source (ic_values m) =
             ff_source (ic_values (F A dtype)) + ff_source (ic_values (R A dtype)) \<and>
           ic_blocks m = map2 (@) (ic_blocks (F A dtype)) (ic_blocks (R A dtype))"
    using res l1 l2 l3 NA by (intro exI [of _ m]) (simp add: FA_def RA_def)
qed

theorem map_objects_spec_witness:
  "map_objects ex_F ex_R0 ex_b 32 = Inl StructuralMismatch \<and>
   (\<exists>m. map_objects ex_F ex_R ex_b 32 = Inr m \<and> ic_len m = 2 \<and>
        ff_source (ic_values m) = 2 + 4 \<and>
        ic_blocks m = [[0, 0, 0], [1, 1, 1]])"
proof -
  have h1: "ic_len (ex_F ex_b 32) \<noteq> ic_len (ex_R0 ex_b 32)"
    by code_simp
  have h0: "ic_len (ex_F ex_b 32) = ic_len (ex_R ex_b 32) \<and> wf_ic (ex_F ex_b 32) \<and>
    wf_ic (ex_R ex_b 32) \<and> ic_dtype (ex_F ex_b 32) = 32 \<and> ic_dtype (ex_R ex_b 32) = 32 \<and>
    ff_target (ic_values (ex_F ex_b 32)) = ff_target (ic_values (ex_R ex_b 32))"
    by code_simp
  have e1: "ic_len (ex_F ex_b 32) = 2" "ff_source (ic_values (ex_F ex_b 32)) = 2"
    "ff_source (ic_values (ex_R ex_b 32)) = 4"
    "map2 (@) (ic_blocks (ex_F ex_b 32)) (ic_blocks (ex_R ex_b 32)) = [[0, 0, 0], [1, 1, 1]]"
    by code_simp+
  from map_objects_spec [of ex_F ex_b 32 ex_R0] h1
  have a: "map_objects ex_F ex_R0 ex_b 32 = Inl StructuralMismatch"
    by blast
  from map_objects_spec [of ex_F ex_b 32 ex_R] h0 a show ?thesis
    unfolding e1 by blast
qed

section \<open>Sequential composition\<close>

text \<open>
  Claim C1. For open hypergraphs \<open>f\<close> and \<open>g\<close> (well-formed, over one operation alphabet)
  with \<open>f.target == g.source\<close>, the composite \<open>h = f >> g\<close> exists and has the signature
  \<open>(f.source, g.target)\<close>: \<open>h.source == f.source\<close> and \<open>h.target == g.target\<close>.
\<close>

theorem compose_signature:
  assumes "wf_oh f" "wf_oh g" "target f = source g"
    "ff_target (hg_x (oh_H f)) = ff_target (hg_x (oh_H g))"
  shows "\<exists>h A C. compose f g = Inr h \<and> source f = Inr A \<and> target g = Inr C \<and>
                 source h = Inr A \<and> target h = Inr C"
  using compose_ok [OF assms] by blast

theorem compose_signature_witness:
  "wf_oh ex_g \<and> wf_oh ex_e \<and> target ex_g = source ex_e \<and>
   ff_target (hg_x (oh_H ex_g)) = ff_target (hg_x (oh_H ex_e)) \<and>
   (\<exists>h A C. compose ex_g ex_e = Inr h \<and> source ex_g = Inr A \<and> target ex_e = Inr C \<and>
            source h = Inr A \<and> target h = Inr C)"
proof -
  have g: "wf_oh ex_g"
    by code_simp
  have e: "wf_oh ex_e"
    by code_simp
  have t: "target ex_g = source ex_e"
    by code_simp
  have x: "ff_target (hg_x (oh_H ex_g)) = ff_target (hg_x (oh_H ex_e))"
    by code_simp
  from compose_signature [OF g e t x] g e t x show ?thesis
    by blast
qed

text \<open>
  Claim C2. For open hypergraphs \<open>f\<close> and \<open>g\<close>, \<open>compose(f, g)\<close> fails with \<open>TypeMismatch\<close>
  (the failing assertion) whenever \<open>f.target\<close> differs from \<open>g.source\<close>, so no result is
  produced then; when they are equal (and both are over one operation alphabet) it succeeds
  and the result is a well-formed open hypergraph.
\<close>

theorem compose_spec:
  assumes "wf_oh f" "wf_oh g"
  shows "(target f \<noteq> source g \<longrightarrow> compose f g = Inl TypeMismatch) \<and>
         (target f = source g \<and> ff_target (hg_x (oh_H f)) = ff_target (hg_x (oh_H g)) \<longrightarrow>
            (\<exists>h. compose f g = Inr h \<and> wf_oh h))"
proof (intro conjI impI)
  assume ne: "target f \<noteq> source g"
  obtain A where A: "target f = Inr A"
    using wf_oh_target [OF assms(1)] by blast
  obtain B where B: "source g = Inr B"
    using wf_oh_source [OF assms(2)] by blast
  show "compose f g = Inl TypeMismatch"
    using ne by (simp add: compose_def A B bindE_def)
next
  assume "target f = source g \<and> ff_target (hg_x (oh_H f)) = ff_target (hg_x (oh_H g))"
  then show "\<exists>h. compose f g = Inr h \<and> wf_oh h"
    using compose_ok [OF assms] by blast
qed


theorem compose_spec_witness:
  "wf_oh ex_f \<and> wf_oh ex_g \<and> wf_oh ex_e \<and>
   compose ex_f ex_g = Inl TypeMismatch \<and>
   (\<exists>h. compose ex_g ex_e = Inr h \<and> wf_oh h)"
proof -
  have f: "wf_oh ex_f"
    by code_simp
  have g: "wf_oh ex_g"
    by code_simp
  have e: "wf_oh ex_e"
    by code_simp
  have n: "target ex_f \<noteq> source ex_g"
    by code_simp
  have t: "target ex_g = source ex_e \<and>
           ff_target (hg_x (oh_H ex_g)) = ff_target (hg_x (oh_H ex_e))"
    by code_simp
  from compose_spec [OF f g] n have a: "compose ex_f ex_g = Inl TypeMismatch"
    by blast
  from compose_spec [OF g e] t have b: "\<exists>h. compose ex_g ex_e = Inr h \<and> wf_oh h"
    by blast
  from f g e a b show ?thesis
    by blast
qed

end
